theory Spec2Isabelle
  imports Complex_Main "HOL-Library.Multiset"
begin

section \<open>Python and numpy primitives used by the task parameters\<close>

text \<open>
  The exceptions that the modelled code can raise. \<open>ValueError\<close> carries its message.
  \<open>ConfigurationError\<close> and \<open>NumericalDegeneracyError\<close> belong to the engine that the
  specification describes; no function under \<open>cardioception/\<close> raises them.
\<close>

datatype error =
    ValueError string
  | IndexError
  | ConfigurationError
  | NumericalDegeneracyError

text \<open>
  \<open>round(nTrials/2)\<close> in Python 3: \<open>/\<close> is true division and \<open>round\<close> rounds a
  half to the even neighbour. For an odd \<open>n\<close> the quotient is \<open>n div 2 + 1/2\<close>
  (\<open>div\<close> on \<open>int\<close> floors, as Python's \<open>//\<close> does).
\<close>

definition py_round_half :: "int \<Rightarrow> int" where
  "py_round_half n =
     (if even n then n div 2
      else if even (n div 2) then n div 2 else n div 2 + 1)"

text \<open>\<open>[x] * k\<close>: the list of \<open>k\<close> copies of \<open>x\<close>, empty when \<open>k \<le> 0\<close>.\<close>

definition py_repeat :: "'a \<Rightarrow> int \<Rightarrow> 'a list" where
  "py_repeat x k = (if k \<le> 0 then [] else replicate (nat k) x)"

text \<open>
  The process-wide generator behind \<open>np.random\<close>. Its internals are abstracted: a state
  is the sequence of raw draws it will deliver next (zeros once the list is used up).
  \<open>random_interval g m\<close> is numpy's bounded draw, a value in \<open>[0, m]\<close>, with the advanced
  state: each raw draw is masked to the bits of \<open>m\<close> (\<open>value & mask\<close>, the remainder
  modulo the next power of two) and a masked value above \<open>m\<close> is rejected and drawn
  again; for \<open>m = 0\<close> nothing is drawn.
\<close>

type_synonym rng = "nat list"

fun bit_width :: "nat \<Rightarrow> nat" where
  "bit_width 0 = 0"
| "bit_width (Suc n) = Suc (bit_width (Suc n div 2))"

fun random_interval :: "rng \<Rightarrow> nat \<Rightarrow> nat \<times> rng" where
  "random_interval [] m = (0, [])"
| "random_interval (r # g) m =
     (if m = 0 then (0, r # g)
      else if r mod 2 ^ bit_width m \<le> m then (r mod 2 ^ bit_width m, g)
      else random_interval g m)"

text \<open>
  \<open>np.random.shuffle(x)\<close> on a one-dimensional array:
  \<^verbatim>\<open>for i in reversed(range(1, n)): j = random_interval(i); x[i], x[j] = x[j], x[i]\<close>
  \<open>shuffle_loop k\<close> runs the iterations \<open>i = k, k - 1, ..., 1\<close>.
\<close>

fun shuffle_loop :: "nat \<Rightarrow> rng \<Rightarrow> 'a list \<Rightarrow> 'a list \<times> rng" where
  "shuffle_loop 0 g xs = (xs, g)"
| "shuffle_loop (Suc i) g xs =
     (case random_interval g (Suc i) of
        (j, g') \<Rightarrow> shuffle_loop i g' (xs[Suc i := xs ! j, j := xs ! Suc i]))"

definition np_random_shuffle :: "rng \<Rightarrow> 'a list \<Rightarrow> 'a list \<times> rng" where
  "np_random_shuffle g xs = shuffle_loop (length xs - 1) g xs"

text \<open>
  \<open>a[idx]\<close> with an integer index array: the elements at the given positions, in the
  order of \<open>idx\<close>; an index outside the array raises \<open>IndexError\<close>.
\<close>

definition np_take :: "'a list \<Rightarrow> nat list \<Rightarrow> error + 'a list" where
  "np_take xs idx =
     (if list_all (\<lambda>i. i < length xs) idx then Inr (map (\<lambda>i. xs ! i) idx)
      else Inl IndexError)"

section \<open>The condition plan of \<open>getParameters\<close>\<close>

text \<open>
  Both \<open>getParameters\<close> build the balanced vector
  \<^verbatim>\<open>np.hstack([np.array(['More'] * round(nTrials/2)), np.array(['Less'] * round(nTrials/2))])\<close>
  from the entry \<open>parameters['nTrials']\<close>, which is a parameter of the model.
\<close>

definition condition_vector :: "int \<Rightarrow> string list" where
  "condition_vector nTrials =
     py_repeat ''More'' (py_round_half nTrials) @ py_repeat ''Less'' (py_round_half nTrials)"

text \<open>
  \<open>HeartRateDiscrimination/parameters.py\<close>: the vector is shuffled in place. The result
  is the \<open>Conditions\<close> array and the state in which the generator is left.
\<close>

definition HRD_conditions :: "int \<Rightarrow> rng \<Rightarrow> string list \<times> rng" where
  "HRD_conditions nTrials g = np_random_shuffle g (condition_vector nTrials)"

text \<open>
  \<open>HeartRateDiscrimination/fMRI/parameters.py\<close>, lines 128 to 145. The parameter
  \<open>exteroception\<close> is declared \<open>bool\<close>, so one of \<open>is True\<close> and \<open>is False\<close> holds.
  \<open>np.tile(c, 2)\<close> is \<open>c\<close> twice. The index vector \<open>rand\<close> has the length of
  \<open>Modality\<close> and is used for both arrays.
\<close>

record plan =
  Conditions :: "string list"
  Modality :: "string list"

definition tiled_conditions :: "int \<Rightarrow> bool \<Rightarrow> string list" where
  "tiled_conditions nTrials exteroception =
     (if exteroception then condition_vector nTrials @ condition_vector nTrials
      else condition_vector nTrials)"

definition modality_vector :: "int \<Rightarrow> bool \<Rightarrow> string list" where
  "modality_vector nTrials exteroception =
     (if exteroception then py_repeat ''Extero'' nTrials @ py_repeat ''Intero'' nTrials
      else py_repeat ''Intero'' nTrials)"

definition fMRI_plan :: "int \<Rightarrow> bool \<Rightarrow> rng \<Rightarrow> error + (plan \<times> rng)" where
  "fMRI_plan nTrials exteroception g =
     (case np_random_shuffle g [0..<length (modality_vector nTrials exteroception)] of
        (rand, g') \<Rightarrow>
          (case np_take (modality_vector nTrials exteroception) rand of
             Inl e \<Rightarrow> Inl e
           | Inr m \<Rightarrow>
               (case np_take (tiled_conditions nTrials exteroception) rand of
                  Inl e \<Rightarrow> Inl e
                | Inr c \<Rightarrow> Inr (\<lparr>Conditions = c, Modality = m\<rparr>, g'))))"

section \<open>The staircases configured by \<open>getParameters\<close>\<close>

text \<open>
  The keyword arguments handed to PsychoPy's \<open>StairHandler\<close> (and the entries of a
  \<open>MultiStairHandler\<close> condition) and to \<open>PsiHandler\<close>. The handlers themselves are
  PsychoPy's; the task files only configure them.
\<close>

record stair_params =
  startVal :: real
  nUp :: nat
  nDown :: nat
  stepSizes :: "real list"
  stepType :: string
  minVal :: real
  maxVal :: real

record psi_params =
  intensRange :: "real \<times> real"
  alphaRange :: "real \<times> real"
  betaRange :: "real \<times> real"
  intensPrecision :: real
  alphaPrecision :: real
  betaPrecision :: real
  delta :: real
  psi_stepType :: string
  expectedMin :: real

text \<open>
  A configured staircase object: a handler with its \<open>nTrials\<close>, a
  \<open>MultiStairHandler\<close> over labelled conditions, or a dictionary from condition labels
  to handlers (in insertion order).
\<close>

datatype staircase =
    StairHandler stair_params int
  | PsiHandler psi_params int
  | MultiStairHandler "(string \<times> stair_params) list" int
  | StairDict "(string \<times> staircase) list"

definition updown_params :: "real \<Rightarrow> stair_params" where
  "updown_params start =
     \<lparr>startVal = start, nUp = 1, nDown = 2, stepSizes = [20, 12, 12, 7, 4, 3, 2, 1],
      stepType = ''lin'', minVal = 1, maxVal = 100\<rparr>"

definition psi_single :: psi_params where
  "psi_single =
     \<lparr>intensRange = (1, 40), alphaRange = (1, 20), betaRange = (1 / 10, 4),
      intensPrecision = 1, alphaPrecision = 1, betaPrecision = 1 / 100,
      delta = 1 / 10, psi_stepType = ''lin'', expectedMin = 1 / 2\<rparr>"

definition psi_less :: psi_params where
  "psi_less =
     \<lparr>intensRange = (- 40, - 1), alphaRange = (- 20, 1), betaRange = (1 / 10, 4),
      intensPrecision = 1, alphaPrecision = 1 / 2, betaPrecision = 1 / 10,
      delta = 1 / 10, psi_stepType = ''lin'', expectedMin = 1 / 2\<rparr>"

definition psi_more :: psi_params where
  "psi_more =
     \<lparr>intensRange = (1, 40), alphaRange = (1, 20), betaRange = (1 / 10, 4),
      intensPrecision = 1, alphaPrecision = 1 / 2, betaPrecision = 1 / 10,
      delta = 1 / 10, psi_stepType = ''lin'', expectedMin = 1 / 2\<rparr>"

text \<open>
  Lines 154 to 197 of \<open>fMRI/parameters.py\<close>: the value stored under \<open>'stairCase'\<close>
  (\<open>None\<close> when no branch stores one), or the \<open>ValueError\<close> of the final \<open>else\<close>.
\<close>

definition stairCase_of :: "int \<Rightarrow> string \<Rightarrow> int \<Rightarrow> error + staircase option" where
  "stairCase_of nStaircase stairType nTrials =
     (if nStaircase = 1 then
        (if stairType = ''UpDown'' then Inr (Some (StairHandler (updown_params 40) nTrials))
         else if stairType = ''psi'' then Inr (Some (PsiHandler psi_single nTrials))
         else Inr None)
      else if nStaircase = 2 then
        (if stairType = ''UpDown'' then
           Inr (Some (MultiStairHandler
                  [(''low'', updown_params 5), (''high'', updown_params 40)] nTrials))
         else if stairType = ''psi'' then
           Inr (Some (StairDict
                  [(''Less'', PsiHandler psi_less nTrials),
                   (''More'', PsiHandler psi_more nTrials)]))
         else Inr None)
      else Inl (ValueError ''Invalid number of Staircase''))"

text \<open>
  Lines 199 to 241: the value stored under \<open>'exteroStairCase'\<close>. This block has no
  final \<open>else\<close>.
\<close>

definition exteroStairCase_of :: "bool \<Rightarrow> int \<Rightarrow> string \<Rightarrow> int \<Rightarrow> staircase option" where
  "exteroStairCase_of exteroception nStaircase stairType nTrials =
     (if exteroception then
        (if nStaircase = 1 then
           (if stairType = ''UpDown'' then Some (StairHandler (updown_params 40) nTrials)
            else if stairType = ''psi'' then Some (PsiHandler psi_single nTrials)
            else None)
         else if nStaircase = 2 then
           (if stairType = ''UpDown'' then
              Some (MultiStairHandler
                  [(''low'', updown_params 5), (''high'', updown_params 40)] nTrials)
            else if stairType = ''psi'' then
              Some (StairDict
                  [(''Less'', PsiHandler psi_less nTrials),
                   (''More'', PsiHandler psi_more nTrials)])
            else None)
         else None)
      else None)"

text \<open>
  \<open>getParameters\<close> of \<open>fMRI/parameters.py\<close> up to line 245, with the entries of the
  dictionary that the claims read. \<open>parameters['nTrials']\<close> is \<open>10\<close>. The generator
  state is taken from, and returned to, the process. What follows line 245 (the results
  directory, the window, the images) is outside the model.
\<close>

record parameters =
  p_nTrials :: int
  p_nStaircase :: int
  p_stairType :: string
  p_Conditions :: "string list"
  p_Modality :: "string list"
  p_stairCase :: "staircase option"
  p_exteroStairCase :: "staircase option"
  p_subject :: string
  p_subjectNumber :: int

definition getParameters ::
  "string \<Rightarrow> int \<Rightarrow> int \<Rightarrow> bool \<Rightarrow> string \<Rightarrow> rng \<Rightarrow> error + (parameters \<times> rng)" where
  "getParameters subjectID subjectNumber nStaircase exteroception stairType g =
     (case fMRI_plan 10 exteroception g of
        Inl e \<Rightarrow> Inl e
      | Inr (pl, g') \<Rightarrow>
          (case stairCase_of nStaircase stairType 10 of
             Inl e \<Rightarrow> Inl e
           | Inr sc \<Rightarrow>
               Inr (\<lparr>p_nTrials = 10, p_nStaircase = nStaircase, p_stairType = stairType,
                     p_Conditions = Conditions pl, p_Modality = Modality pl,
                     p_stairCase = sc,
                     p_exteroStairCase = exteroStairCase_of exteroception nStaircase stairType 10,
                     p_subject = subjectID, p_subjectNumber = subjectNumber\<rparr>, g')))"

text \<open>
  \<open>np.random.seed(s)\<close>, which a caller may run before \<open>getParameters\<close>: the state of
  the process-wide generator is replaced by the one that the seed determines (\<open>init\<close>
  stands for the generator's seeding routine).
\<close>

definition np_random_seed :: "(nat \<Rightarrow> rng) \<Rightarrow> nat \<Rightarrow> rng \<Rightarrow> rng" where
  "np_random_seed init s g = init s"

section \<open>The convergence line of \<open>hrd_convergence\<close>\<close>

text \<open>
  A float is a real number or \<open>nan\<close>. \<open>np.median\<close> sorts the values and returns the
  middle one, or the mean of the two middle ones; on an empty array it returns \<open>nan\<close>
  (with a warning, not an exception).
\<close>

datatype npfloat = NaN | Val real

definition np_median :: "real list \<Rightarrow> npfloat" where
  "np_median xs =
     (if xs = [] then NaN
      else if odd (length xs) then Val (sort xs ! (length xs div 2))
      else Val ((sort xs ! (length xs div 2 - 1) + sort xs ! (length xs div 2)) / 2))"

text \<open>\<open>a[mask]\<close> with a boolean mask of the length of \<open>a\<close>: the elements where the mask holds.\<close>

definition mask_select :: "'a list \<Rightarrow> bool list \<Rightarrow> 'a list" where
  "mask_select xs keep = map fst (filter snd (zip xs keep))"

text \<open>
  A row of \<open>results_df\<close>, with the columns that the convergence line reads, and the
  data frame as the list of its rows.
\<close>

record result_row =
  r_nTrials :: nat
  r_Alpha :: real
  r_Accuracy :: int

text \<open>
  Lines 117 to 119 of \<open>plotting.py\<close>:
  \<^verbatim>\<open>revers = np.abs(results_df.Alpha[results_df.Accuracy == 0])\<close>
  \<^verbatim>\<open>conv = np.median(revers[~madmedianrule(revers)])\<close>
  \<open>madmedianrule\<close> is imported from pingouin and is a parameter here. A mask of another
  length than \<open>revers\<close> makes the indexing raise.
\<close>

definition revers_of :: "result_row list \<Rightarrow> real list" where
  "revers_of results_df =
     map abs (mask_select (map r_Alpha results_df) (map (\<lambda>r. r_Accuracy r = 0) results_df))"

definition hrd_convergence_conv ::
  "(real list \<Rightarrow> bool list) \<Rightarrow> result_row list \<Rightarrow> error + npfloat" where
  "hrd_convergence_conv madmedianrule results_df =
     (if length (madmedianrule (revers_of results_df)) \<noteq> length (revers_of results_df)
      then Inl IndexError
      else Inr (np_median (mask_select (revers_of results_df)
                  (map Not (madmedianrule (revers_of results_df))))))"

text \<open>
  The informative points in the words of the specification: keep the trials with
  accuracy 0 and take the absolute value of their intensity offset. The history holds
  (trial index, intensity offset, accuracy).
\<close>

definition informative_points :: "(nat \<times> real \<times> int) list \<Rightarrow> real list" where
  "informative_points history =
     map (\<lambda>(i, offset, accuracy). \<bar>offset\<bar>)
       (filter (\<lambda>(i, offset, accuracy). accuracy = 0) history)"

definition history_of :: "result_row list \<Rightarrow> (nat \<times> real \<times> int) list" where
  "history_of results_df = map (\<lambda>r. (r_nTrials r, r_Alpha r, r_Accuracy r)) results_df"

text \<open>
  pingouin's rule, in exact arithmetic:
  \<^verbatim>\<open>(np.fabs(a - np.median(a)) / mad(a)) > k\<close>, where \<open>mad(a)\<close> is the median of
  \<open>|a - median(a)| / c\<close>, \<open>c = norm.ppf(3/4)\<close> and \<open>k = sqrt(chi2.ppf(0.975, 1))\<close>.
  With \<open>mad(a) = 0\<close> the float quotient is \<open>inf\<close> for a point off the median (flagged)
  and \<open>nan\<close> for a point on it (not flagged).
\<close>

definition mad_c :: real where
  "mad_c = 6744897501960817 / 10000000000000000"

definition mad_k :: real where
  "mad_k = 2241402727604947 / 1000000000000000"

definition madmedianrule :: "real list \<Rightarrow> bool list" where
  "madmedianrule a =
     (case np_median a of
        NaN \<Rightarrow> map (\<lambda>x. False) a
      | Val med \<Rightarrow>
          (case np_median (map (\<lambda>x. \<bar>x - med\<bar> / mad_c) a) of
             NaN \<Rightarrow> map (\<lambda>x. False) a
           | Val mad \<Rightarrow>
               map (\<lambda>x. if mad = 0 then \<bar>x - med\<bar> \<noteq> 0 else \<bar>x - med\<bar> / mad > mad_k) a))"

text \<open>
  The median and the exclusion rule in the words of the specification, stated without
  sorting. \<open>v\<close> is the order statistic of rank \<open>k\<close> (counted from 0) of \<open>xs\<close> when it is a
  point of \<open>xs\<close>, at most \<open>k\<close> points lie strictly below it and more than \<open>k\<close> points lie
  at or below it. A median of \<open>xs\<close> is the mean of the two middle order statistics (which
  coincide for an odd length). A point is excluded when it lies more than the fixed
  multiple \<open>mad_k\<close> of the scaled median absolute deviation \<open>d / mad_c\<close> from the median,
  where \<open>d\<close> is the median of the absolute deviations from the median.
\<close>

definition order_stat :: "real list \<Rightarrow> nat \<Rightarrow> real \<Rightarrow> bool" where
  "order_stat xs k v \<longleftrightarrow>
     v \<in> set xs \<and> length (filter (\<lambda>x. x < v) xs) \<le> k \<and> k < length (filter (\<lambda>x. x \<le> v) xs)"

definition is_median :: "real list \<Rightarrow> real \<Rightarrow> bool" where
  "is_median xs m \<longleftrightarrow>
     (\<exists>lo \<in> set xs. \<exists>hi \<in> set xs.
        order_stat xs ((length xs - 1) div 2) lo \<and> order_stat xs (length xs div 2) hi \<and>
        m = (lo + hi) / 2)"

definition absolute_deviations :: "real list \<Rightarrow> real \<Rightarrow> real list" where
  "absolute_deviations pts med = map (\<lambda>x. \<bar>x - med\<bar>) pts"

definition inliers :: "real list \<Rightarrow> real \<Rightarrow> real \<Rightarrow> real list" where
  "inliers pts med d = filter (\<lambda>x. \<bar>x - med\<bar> \<le> mad_k * (d / mad_c)) pts"

section \<open>The up-down staircase\<close>

text \<open>
  Modelled from the spec: the up-down procedure is PsychoPy's \<open>StairHandler\<close>, which the
  task files configure and do not contain. The state and the update rule follow
  sections 3 and 4.2 of the specification. \<open>consecutive_same_direction\<close> counts the
  current streak of equal responses, positive for correct ones and negative for
  incorrect ones, and starts again after a move. A move uses the step size at the
  current \<open>step_index\<close>; a reversal then advances the index, up to the last one. This is
  the order under which the trajectory quoted in section 8 is the one of the rule.
\<close>

datatype direction = Up | Down | NoDirection

record updown_state =
  current_intensity :: real
  step_index :: nat
  step_sizes :: "real list"
  direction :: direction
  consecutive_same_direction :: int
  n_reversals :: nat
  history :: "(real \<times> bool) list"
  cfg_nDown :: nat
  cfg_nUp :: nat
  cfg_minVal :: real
  cfg_maxVal :: real

text \<open>Setup from the configured arguments; step sizes are needed and the range is not empty.\<close>

definition updown_init :: "stair_params \<Rightarrow> error + updown_state" where
  "updown_init p =
     (if stepSizes p = [] \<or> maxVal p < minVal p then Inl ConfigurationError
      else Inr \<lparr>current_intensity = startVal p, step_index = 0, step_sizes = stepSizes p,
                direction = NoDirection, consecutive_same_direction = 0, n_reversals = 0,
                history = [], cfg_nDown = nDown p, cfg_nUp = nUp p,
                cfg_minVal = minVal p, cfg_maxVal = maxVal p\<rparr>)"

definition updown_next_intensity :: "updown_state \<Rightarrow> real" where
  "updown_next_intensity s = current_intensity s"

definition clamp :: "real \<Rightarrow> real \<Rightarrow> real \<Rightarrow> real" where
  "clamp lo hi x = (if x < lo then lo else if hi < x then hi else x)"

text \<open>
  One move in direction \<open>d\<close>: the step at \<open>step_index\<close>, clamped; a reversal is a move
  against the previous move, so the first move is none.
\<close>

definition updown_move :: "direction \<Rightarrow> updown_state \<Rightarrow> updown_state" where
  "updown_move d s =
     (let step = step_sizes s ! step_index s;
          target = (if d = Down then current_intensity s - step else current_intensity s + step);
          reversal = (direction s \<noteq> NoDirection \<and> direction s \<noteq> d)
      in s\<lparr>current_intensity := clamp (cfg_minVal s) (cfg_maxVal s) target,
            step_index := (if reversal then min (Suc (step_index s)) (length (step_sizes s) - 1)
                           else step_index s),
            n_reversals := (if reversal then Suc (n_reversals s) else n_reversals s),
            direction := d,
            consecutive_same_direction := 0\<rparr>)"

definition updown_update :: "updown_state \<Rightarrow> bool \<Rightarrow> updown_state" where
  "updown_update s was_correct =
     (let streak = (if was_correct
                    then (if 0 < consecutive_same_direction s
                          then consecutive_same_direction s + 1 else 1)
                    else (if consecutive_same_direction s < 0
                          then consecutive_same_direction s - 1 else - 1));
          s1 = s\<lparr>history := history s @ [(current_intensity s, was_correct)],
                  consecutive_same_direction := streak\<rparr>
      in if was_correct \<and> int (cfg_nDown s) \<le> streak then updown_move Down s1
         else if \<not> was_correct \<and> int (cfg_nUp s) \<le> - streak then updown_move Up s1
         else s1)"

fun updown_run :: "updown_state \<Rightarrow> bool list \<Rightarrow> updown_state" where
  "updown_run s [] = s"
| "updown_run s (r # rs) = updown_run (updown_update s r) rs"

text \<open>The intensity after each response of a script, in order.\<close>

fun updown_trajectory :: "updown_state \<Rightarrow> bool list \<Rightarrow> real list" where
  "updown_trajectory s [] = []"
| "updown_trajectory s (r # rs) =
     updown_next_intensity (updown_update s r) # updown_trajectory (updown_update s r) rs"

section \<open>The Psi staircase\<close>

text \<open>
  Modelled from the spec: the Bayesian procedure is PsychoPy's \<open>PsiHandler\<close>, which the
  task files configure and do not contain. The state and the update follow sections 3
  and 4.3 of the specification, in exact arithmetic. The posterior is the grid over
  (threshold, slope) as the list of its cells, each with its probability mass. The
  psychometric function \<open>pf intensity alpha beta\<close> is a parameter, and so is the
  intensity that was presented.
\<close>

record psi_state =
  posterior :: "((real \<times> real) \<times> real) list"
  intensity_range :: "real \<times> real"
  psi_history :: "(real \<times> bool) list"

text \<open>The points of a range at a precision, from the lower bound upwards.\<close>

definition grid_points :: "real \<times> real \<Rightarrow> real \<Rightarrow> real list" where
  "grid_points bounds precision =
     (if precision \<le> 0 \<or> snd bounds < fst bounds then []
      else map (\<lambda>k. fst bounds + real k * precision)
             [0..<Suc (nat \<lfloor>(snd bounds - fst bounds) / precision\<rfloor>)])"

text \<open>Setup: the uniform distribution over the grid; an empty grid is a configuration error.\<close>

definition psi_init :: "psi_params \<Rightarrow> error + psi_state" where
  "psi_init p =
     (let alphas = grid_points (alphaRange p) (alphaPrecision p);
          betas = grid_points (betaRange p) (betaPrecision p)
      in if alphas = [] \<or> betas = [] then Inl ConfigurationError
         else Inr \<lparr>posterior =
                     map (\<lambda>ab. (ab, 1 / real (length alphas * length betas)))
                       (List.product alphas betas),
                   intensity_range = intensRange p, psi_history = []\<rparr>)"

definition total_mass :: "((real \<times> real) \<times> real) list \<Rightarrow> real" where
  "total_mass grid = sum_list (map snd grid)"

text \<open>
  Bayes' rule: each cell is multiplied by the probability of the observed response at
  the presented intensity, then the grid is divided by its total mass. A total mass of
  zero is an error.
\<close>

definition reweigh ::
  "(real \<Rightarrow> real \<Rightarrow> real \<Rightarrow> real) \<Rightarrow> real \<Rightarrow> bool \<Rightarrow> ((real \<times> real) \<times> real) list
     \<Rightarrow> ((real \<times> real) \<times> real) list" where
  "reweigh pf x was_correct grid =
     map (\<lambda>((a, b), m). ((a, b), m * (if was_correct then pf x a b else 1 - pf x a b))) grid"

definition psi_update ::
  "(real \<Rightarrow> real \<Rightarrow> real \<Rightarrow> real) \<Rightarrow> psi_state \<Rightarrow> real \<Rightarrow> bool \<Rightarrow> error + psi_state" where
  "psi_update pf s x was_correct =
     (if total_mass (reweigh pf x was_correct (posterior s)) = 0
      then Inl NumericalDegeneracyError
      else Inr (s\<lparr>posterior :=
                    map (\<lambda>(ab, m). (ab, m / total_mass (reweigh pf x was_correct (posterior s))))
                      (reweigh pf x was_correct (posterior s)),
                  psi_history := psi_history s @ [(x, was_correct)]\<rparr>))"

text \<open>A session: the trials (presented intensity, response) in order.\<close>

fun psi_run ::
  "(real \<Rightarrow> real \<Rightarrow> real \<Rightarrow> real) \<Rightarrow> psi_state \<Rightarrow> (real \<times> bool) list \<Rightarrow> error + psi_state" where
  "psi_run pf s [] = Inr s"
| "psi_run pf s ((x, was_correct) # rs) =
     (case psi_update pf s x was_correct of
        Inl e \<Rightarrow> Inl e
      | Inr s' \<Rightarrow> psi_run pf s' rs)"

section \<open>The staircase manager\<close>

text \<open>
  Modelled from the spec: the manager that routes a trial to the staircase of its
  condition label is not in the task files under review, which only build the staircase
  objects (the dictionary under \<open>'stairCase'\<close> with one handler per label, lines 181
  to 194 of \<open>fMRI/parameters.py\<close>). Section 4.4 of the specification: the manager holds
  one staircase instance per condition label, \<open>select_intensity\<close> reads the instance of
  the label, \<open>report_outcome\<close> updates it, and either fails with
  \<open>ConfigurationError\<close> on a label with no registered staircase.

  The instances are objects that \<open>update\<close> mutates in place, so they live in a store,
  a list of objects indexed by address, and the manager's mapping holds addresses. Each
  constructor call takes the next free address, in the order of the configuration. The
  procedure behind an instance is a parameter: \<open>next_intensity\<close> reads a state and
  \<open>update\<close> takes a state and a response to the next state.
\<close>

type_synonym addr = nat

fun manager_init ::
  "(string \<times> 's) list \<Rightarrow> 's list \<Rightarrow> (string \<times> addr) list \<times> 's list" where
  "manager_init [] store = ([], store)"
| "manager_init ((label, obj) # cfgs) store =
     (case manager_init cfgs (store @ [obj]) of
        (registry, store') \<Rightarrow> ((label, length store) # registry, store'))"

definition select_intensity ::
  "('s \<Rightarrow> real) \<Rightarrow> (string \<times> addr) list \<Rightarrow> 's list \<Rightarrow> string \<Rightarrow> error + real" where
  "select_intensity next_intensity registry store label =
     (case map_of registry label of
        None \<Rightarrow> Inl ConfigurationError
      | Some a \<Rightarrow> Inr (next_intensity (store ! a)))"

definition report_outcome ::
  "('s \<Rightarrow> bool \<Rightarrow> 's) \<Rightarrow> (string \<times> addr) list \<Rightarrow> 's list \<Rightarrow> string \<Rightarrow> bool \<Rightarrow>
   error + 's list" where
  "report_outcome update registry store label was_correct =
     (case map_of registry label of
        None \<Rightarrow> Inl ConfigurationError
      | Some a \<Rightarrow> Inr (store[a := update (store ! a) was_correct]))"

text \<open>A run of responses fed to the staircase of one label, in order.\<close>

fun report_outcomes ::
  "('s \<Rightarrow> bool \<Rightarrow> 's) \<Rightarrow> (string \<times> addr) list \<Rightarrow> 's list \<Rightarrow> string \<Rightarrow> bool list \<Rightarrow>
   error + 's list" where
  "report_outcomes update registry store label [] = Inr store"
| "report_outcomes update registry store label (c # cs) =
     (case report_outcome update registry store label c of
        Inl e \<Rightarrow> Inl e
      | Inr store' \<Rightarrow> report_outcomes update registry store' label cs)"

section \<open>Properties of the primitives\<close>

lemma random_interval_bound: "fst (random_interval g m) \<le> m"
  by (induction g) auto

lemma shuffle_loop_mset:
  "k < length xs \<Longrightarrow> mset (fst (shuffle_loop k g xs)) = mset xs"
proof (induction k arbitrary: g xs)
  case 0
  then show ?case by simp
next
  case (Suc k)
  obtain j g' where rj: "random_interval g (Suc k) = (j, g')"
    by (cases "random_interval g (Suc k)") auto
  have "j \<le> Suc k"
    using random_interval_bound [of g "Suc k"] rj by simp
  with Suc.prems have jl: "j < length xs" by simp
  let ?ys = "xs[Suc k := xs ! j, j := xs ! Suc k]"
  have m: "mset ?ys = mset xs"
    using mset_swap [OF jl Suc.prems] by simp
  have "k < length ?ys" using Suc.prems by simp
  from Suc.IH [OF this] have "mset (fst (shuffle_loop k g' ?ys)) = mset ?ys" .
  with m rj show ?case by simp
qed

lemma np_random_shuffle_mset: "mset (fst (np_random_shuffle g xs)) = mset xs"
proof (cases xs)
  case Nil
  then show ?thesis by (simp add: np_random_shuffle_def)
next
  case (Cons a list)
  then show ?thesis by (simp add: np_random_shuffle_def shuffle_loop_mset)
qed

lemma np_random_shuffle_length: "length (fst (np_random_shuffle g xs)) = length xs"
  using np_random_shuffle_mset [of g xs] by (metis size_mset)

lemma np_random_shuffle_set: "set (fst (np_random_shuffle g xs)) = set xs"
  using np_random_shuffle_mset [of g xs] by (metis set_mset_mset)

lemma count_list_replicate:
  "count_list (replicate n x) y = (if x = y then n else 0)"
  by (induction n) auto

lemma count_condition_vector:
  "count_list (condition_vector n) ''More'' = nat (py_round_half n)"
  "count_list (condition_vector n) ''Less'' = nat (py_round_half n)"
  by (auto simp: condition_vector_def py_repeat_def count_list_replicate)

lemma length_condition_vector:
  "int (length (condition_vector n)) = (if py_round_half n \<le> 0 then 0 else 2 * py_round_half n)"
  by (auto simp: condition_vector_def py_repeat_def)

lemma py_round_half_even: "even n \<Longrightarrow> py_round_half n = n div 2"
  by (simp add: py_round_half_def)

lemma py_round_half_nonpos: "n \<le> 0 \<Longrightarrow> py_round_half n \<le> 0"
  by (auto simp: py_round_half_def) presburger

lemma condition_vector_nonpos: "n \<le> 0 \<Longrightarrow> condition_vector n = []"
  using py_round_half_nonpos [of n] by (simp add: condition_vector_def py_repeat_def)

lemma length_condition_vector_even:
  "even n \<Longrightarrow> 0 < n \<Longrightarrow> int (length (condition_vector n)) = n"
  by (auto simp: length_condition_vector py_round_half_even)

lemma length_modality_vector:
  "0 \<le> n \<Longrightarrow> int (length (modality_vector n b)) = (if b then 2 * n else n)"
  by (auto simp: modality_vector_def py_repeat_def)

lemma length_tiled_conditions:
  "length (tiled_conditions n b) =
     (if b then 2 * length (condition_vector n) else length (condition_vector n))"
  by (simp add: tiled_conditions_def)

lemma count_tiled_conditions:
  "count_list (tiled_conditions n b) ''More'' = count_list (tiled_conditions n b) ''Less''"
  by (simp add: tiled_conditions_def count_condition_vector)

lemma np_take_perm:
  assumes "mset idx = mset [0..<length xs]"
  shows "np_take xs idx = Inr (map (\<lambda>i. xs ! i) idx)"
proof -
  have "set idx = set [0..<length xs]"
    using assms by (metis set_mset_mset)
  then have "list_all (\<lambda>i. i < length xs) idx"
    by (auto simp: list_all_iff)
  then show ?thesis by (simp add: np_take_def)
qed

lemma mset_map_nth_perm:
  assumes "mset idx = mset [0..<length xs]"
  shows "mset (map (\<lambda>i. xs ! i) idx) = mset xs"
proof -
  have "mset (map (\<lambda>i. xs ! i) idx) = image_mset (\<lambda>i. xs ! i) (mset idx)"
    by simp
  also have "\<dots> = mset (map (\<lambda>i. xs ! i) [0..<length xs])"
    using assms by simp
  also have "\<dots> = mset xs"
    by (simp add: map_nth)
  finally show ?thesis .
qed

lemma count_list_mset_eq: "mset xs = mset ys \<Longrightarrow> count_list xs a = count_list ys a"
  by (metis count_mset)

text \<open>
  When the two arrays have one length, \<open>fMRI_plan\<close> raises nothing: it returns both
  arrays read through one permutation \<open>rand\<close> of their positions.
\<close>

lemma fMRI_plan_same_length:
  assumes "length (tiled_conditions n b) = length (modality_vector n b)"
  shows "\<exists>rand g'.
           np_random_shuffle g [0..<length (modality_vector n b)] = (rand, g') \<and>
           mset rand = mset [0..<length (modality_vector n b)] \<and>
           fMRI_plan n b g =
             Inr (\<lparr>Conditions = map (\<lambda>i. tiled_conditions n b ! i) rand,
                   Modality = map (\<lambda>i. modality_vector n b ! i) rand\<rparr>, g')"
proof -
  obtain rand g' where sh:
    "np_random_shuffle g [0..<length (modality_vector n b)] = (rand, g')"
    by (cases "np_random_shuffle g [0..<length (modality_vector n b)]") auto
  have p: "mset rand = mset [0..<length (modality_vector n b)]"
    using np_random_shuffle_mset [of g "[0..<length (modality_vector n b)]"] sh by simp
  have t1: "np_take (modality_vector n b) rand = Inr (map (\<lambda>i. modality_vector n b ! i) rand)"
    using p by (rule np_take_perm)
  have t2: "np_take (tiled_conditions n b) rand = Inr (map (\<lambda>i. tiled_conditions n b ! i) rand)"
    using p assms by (simp add: np_take_perm)
  show ?thesis
    using sh p t1 t2 by (simp add: fMRI_plan_def)
qed

lemma same_length_even:
  assumes "even n" "0 < n"
  shows "length (tiled_conditions n b) = length (modality_vector n b)"
proof -
  have "int (length (tiled_conditions n b)) = int (length (modality_vector n b))"
    using assms length_condition_vector_even [of n] length_modality_vector [of n b]
    by (simp add: length_tiled_conditions)
  then show ?thesis by simp
qed

lemma fMRI_plan_even:
  assumes "even n" "0 < n"
  shows "\<exists>p g'. fMRI_plan n b g = Inr (p, g') \<and>
           int (length (Conditions p)) = (if b then 2 * n else n) \<and>
           int (length (Modality p)) = (if b then 2 * n else n) \<and>
           mset (Conditions p) = mset (tiled_conditions n b) \<and>
           mset (Modality p) = mset (modality_vector n b)"
proof -
  have sl: "length (tiled_conditions n b) = length (modality_vector n b)"
    using assms by (rule same_length_even)
  from fMRI_plan_same_length [OF sl, of g] obtain rand g' where
    p: "mset rand = mset [0..<length (modality_vector n b)]" and
    r: "fMRI_plan n b g =
             Inr (\<lparr>Conditions = map (\<lambda>i. tiled_conditions n b ! i) rand,
                   Modality = map (\<lambda>i. modality_vector n b ! i) rand\<rparr>, g')"
    by blast
  have lr: "length rand = length (modality_vector n b)"
    using p by (metis size_mset length_upt diff_zero)
  have lm: "int (length (modality_vector n b)) = (if b then 2 * n else n)"
    using assms by (simp add: length_modality_vector)
  have p': "mset rand = mset [0..<length (tiled_conditions n b)]"
    unfolding sl by (rule p)
  have m1: "mset (map (\<lambda>i. tiled_conditions n b ! i) rand) = mset (tiled_conditions n b)"
    using p' by (rule mset_map_nth_perm)
  have m2: "mset (map (\<lambda>i. modality_vector n b ! i) rand) = mset (modality_vector n b)"
    using p by (rule mset_map_nth_perm)
  show ?thesis
    using r lr lm m1 m2 by simp
qed

section \<open>Claims about the condition plan\<close>

lemma py_round_half_mod4: "n mod 4 = 1 \<Longrightarrow> py_round_half n = (n - 1) div 2"
proof -
  assume a: "n mod 4 = 1"
  then have "odd n" by presburger
  moreover from a have "even (n div 2)" by presburger
  moreover have "n div 2 = (n - 1) div 2" using a by presburger
  ultimately show ?thesis by (simp add: py_round_half_def)
qed

lemma HRD_conditions_counts:
  "length (fst (HRD_conditions n g)) = length (condition_vector n)"
  "count_list (fst (HRD_conditions n g)) ''More'' = nat (py_round_half n)"
  "count_list (fst (HRD_conditions n g)) ''Less'' = nat (py_round_half n)"
proof -
  have ms: "mset (fst (HRD_conditions n g)) = mset (condition_vector n)"
    by (simp add: HRD_conditions_def np_random_shuffle_mset)
  show "length (fst (HRD_conditions n g)) = length (condition_vector n)"
    by (simp add: HRD_conditions_def np_random_shuffle_length)
  show "count_list (fst (HRD_conditions n g)) ''More'' = nat (py_round_half n)"
    using count_list_mset_eq [OF ms] by (simp add: count_condition_vector)
  show "count_list (fst (HRD_conditions n g)) ''Less'' = nat (py_round_half n)"
    using count_list_mset_eq [OF ms] by (simp add: count_condition_vector)
qed

lemma count_tiled_conditions_value:
  "count_list (tiled_conditions n b) ''More'' =
     (if b then 2 * nat (py_round_half n) else nat (py_round_half n))"
  "count_list (tiled_conditions n b) ''Less'' =
     (if b then 2 * nat (py_round_half n) else nat (py_round_half n))"
  by (simp_all add: tiled_conditions_def count_condition_vector)

text \<open>
  C1, as amended. For every even \<open>nTrials > 0\<close> the \<open>Conditions\<close> array of both
  \<open>getParameters\<close> has length exactly \<open>nTrials\<close> (\<open>2 * nTrials\<close> with exteroception) and
  holds \<open>nTrials / 2\<close> labels \<open>'More'\<close> and \<open>nTrials / 2\<close> labels \<open>'Less'\<close> (\<open>nTrials\<close> of each
  with exteroception). For an odd \<open>nTrials\<close> with \<open>nTrials mod 4 = 1\<close>, \<open>parameters.py\<close>
  builds \<open>nTrials - 1\<close> entries, \<open>round(nTrials/2) = (nTrials - 1) / 2\<close> of each label, as
  its docstring says (\<open>will use nTrials - 1 to ensure an equal number\<close>): no label has an
  extra entry.
\<close>

theorem condition_plan_balanced:
  "(even nTrials \<and> 0 < nTrials \<longrightarrow>
      int (length (fst (HRD_conditions nTrials g))) = nTrials \<and>
      int (count_list (fst (HRD_conditions nTrials g)) ''More'') = nTrials div 2 \<and>
      int (count_list (fst (HRD_conditions nTrials g)) ''Less'') = nTrials div 2 \<and>
      (\<exists>p g'. fMRI_plan nTrials exteroception g = Inr (p, g') \<and>
         int (length (Conditions p)) = (if exteroception then 2 * nTrials else nTrials) \<and>
         int (count_list (Conditions p) ''More'') =
           (if exteroception then nTrials else nTrials div 2) \<and>
         int (count_list (Conditions p) ''Less'') =
           (if exteroception then nTrials else nTrials div 2))) \<and>
   (0 < nTrials \<and> nTrials mod 4 = 1 \<longrightarrow>
      int (length (fst (HRD_conditions nTrials g))) = nTrials - 1 \<and>
      int (count_list (fst (HRD_conditions nTrials g)) ''More'') = (nTrials - 1) div 2 \<and>
      int (count_list (fst (HRD_conditions nTrials g)) ''Less'') = (nTrials - 1) div 2)"
proof (intro conjI impI)
  assume a: "even nTrials \<and> 0 < nTrials"
  then have h: "py_round_half nTrials = nTrials div 2" "0 < nTrials div 2"
    "2 * (nTrials div 2) = nTrials"
    by (auto simp: py_round_half_even)
  show "int (length (fst (HRD_conditions nTrials g))) = nTrials"
    using a by (simp add: HRD_conditions_counts length_condition_vector_even)
  show "int (count_list (fst (HRD_conditions nTrials g)) ''More'') = nTrials div 2"
    using h by (simp add: HRD_conditions_counts)
  show "int (count_list (fst (HRD_conditions nTrials g)) ''Less'') = nTrials div 2"
    using h by (simp add: HRD_conditions_counts)
  from a obtain p g' where
    r: "fMRI_plan nTrials exteroception g = Inr (p, g')" and
    l: "int (length (Conditions p)) = (if exteroception then 2 * nTrials else nTrials)" and
    m: "mset (Conditions p) = mset (tiled_conditions nTrials exteroception)"
    using fMRI_plan_even [of nTrials exteroception g] by blast
  have c1: "int (count_list (Conditions p) ''More'') =
      (if exteroception then nTrials else nTrials div 2)"
    using count_list_mset_eq [OF m, of "''More''"] h
    by (simp add: count_tiled_conditions_value)
  have c2: "int (count_list (Conditions p) ''Less'') =
      (if exteroception then nTrials else nTrials div 2)"
    using count_list_mset_eq [OF m, of "''Less''"] h
    by (simp add: count_tiled_conditions_value)
  from r l c1 c2 show "\<exists>p g'. fMRI_plan nTrials exteroception g = Inr (p, g') \<and>
         int (length (Conditions p)) = (if exteroception then 2 * nTrials else nTrials) \<and>
         int (count_list (Conditions p) ''More'') =
           (if exteroception then nTrials else nTrials div 2) \<and>
         int (count_list (Conditions p) ''Less'') =
           (if exteroception then nTrials else nTrials div 2)"
    by blast
next
  assume a: "0 < nTrials \<and> nTrials mod 4 = 1"
  then have h: "py_round_half nTrials = (nTrials - 1) div 2"
    by (simp add: py_round_half_mod4)
  from a have nn: "0 \<le> (nTrials - 1) div 2" "2 * ((nTrials - 1) div 2) = nTrials - 1"
    by presburger+
  show "int (length (fst (HRD_conditions nTrials g))) = nTrials - 1"
    using h nn by (simp add: HRD_conditions_counts length_condition_vector)
  show "int (count_list (fst (HRD_conditions nTrials g)) ''More'') = (nTrials - 1) div 2"
    using h nn by (simp add: HRD_conditions_counts)
  show "int (count_list (fst (HRD_conditions nTrials g)) ''Less'') = (nTrials - 1) div 2"
    using h nn by (simp add: HRD_conditions_counts)
qed

theorem condition_plan_balanced_witness:
  "int (length (fst (HRD_conditions 10 []))) = 10 \<and>
   int (count_list (fst (HRD_conditions 10 [])) ''More'') = 5 \<and>
   int (count_list (fst (HRD_conditions 10 [])) ''Less'') = 5 \<and>
   (\<exists>p g'. fMRI_plan 10 True [] = Inr (p, g') \<and>
      int (length (Conditions p)) = 20 \<and>
      int (count_list (Conditions p) ''More'') = 10 \<and>
      int (count_list (Conditions p) ''Less'') = 10) \<and>
   int (length (fst (HRD_conditions 5 []))) = 4 \<and>
   int (count_list (fst (HRD_conditions 5 [])) ''More'') = 2 \<and>
   int (count_list (fst (HRD_conditions 5 [])) ''Less'') = 2"
  using condition_plan_balanced [of 10 "[]" True] condition_plan_balanced [of 5 "[]" True]
  by simp

text \<open>
  C1 as stated fails at \<open>nTrials = 5\<close>: \<open>round(5/2)\<close> is \<open>2\<close>, so the array has four
  entries, two of each label, where the claim wants five entries split three to two.
\<close>

theorem condition_plan_odd_counterexample:
  "fst (HRD_conditions 5 []) = [''More'', ''Less'', ''Less'', ''More'']"
  by (simp add: HRD_conditions_def condition_vector_def py_round_half_def py_repeat_def
      np_random_shuffle_def numeral_eq_Suc)

text \<open>
  C8, as amended. For every \<open>nTrials \<le> 0\<close> building the condition plan raises nothing:
  the repetition counts are not positive, the arrays are empty, and the empty plan is
  returned with the generator untouched.
\<close>

theorem plan_nonpositive_trials:
  assumes "nTrials \<le> 0"
  shows "HRD_conditions nTrials g = ([], g) \<and>
         fMRI_plan nTrials exteroception g = Inr (\<lparr>Conditions = [], Modality = []\<rparr>, g)"
proof -
  have c: "condition_vector nTrials = []"
    using assms by (rule condition_vector_nonpos)
  have m: "modality_vector nTrials exteroception = []"
    using assms by (simp add: modality_vector_def py_repeat_def)
  have t: "tiled_conditions nTrials exteroception = []"
    using c by (simp add: tiled_conditions_def)
  have h: "HRD_conditions nTrials g = ([], g)"
    by (simp add: HRD_conditions_def c np_random_shuffle_def)
  have f: "fMRI_plan nTrials exteroception g = Inr (\<lparr>Conditions = [], Modality = []\<rparr>, g)"
    by (simp add: fMRI_plan_def m t np_random_shuffle_def np_take_def)
  from h f show ?thesis by simp
qed

theorem plan_nonpositive_trials_witness:
  "(- 3 :: int) \<le> 0 \<and> HRD_conditions (- 3) [7] = ([], [7]) \<and>
   fMRI_plan (- 3) True [7] = Inr (\<lparr>Conditions = [], Modality = []\<rparr>, [7])"
  using plan_nonpositive_trials [of "- 3" "[7]" True] by simp

text \<open>
  C8 as stated fails at \<open>nTrials = 0\<close>: no error is raised, the plan is empty.
\<close>

theorem plan_zero_trials_counterexample:
  "fMRI_plan 0 True [] = Inr (\<lparr>Conditions = [], Modality = []\<rparr>, []) \<and>
   fMRI_plan 0 False [] = Inr (\<lparr>Conditions = [], Modality = []\<rparr>, []) \<and>
   HRD_conditions 0 [] = ([], [])"
  by (simp add: fMRI_plan_def HRD_conditions_def modality_vector_def tiled_conditions_def
      condition_vector_def py_round_half_def py_repeat_def np_random_shuffle_def np_take_def)

lemma same_length_even_any:
  assumes "even n"
  shows "length (tiled_conditions n b) = length (modality_vector n b)"
proof (cases "0 < n")
  case True
  with assms show ?thesis by (simp add: same_length_even)
next
  case False
  then have "n \<le> 0" by simp
  then show ?thesis
    by (simp add: tiled_conditions_def condition_vector_nonpos modality_vector_def py_repeat_def)
qed

lemma zip_map_nth:
  assumes "length xs = length ys" "list_all (\<lambda>i. i < length xs) idx"
  shows "zip (map (\<lambda>i. xs ! i) idx) (map (\<lambda>i. ys ! i) idx) = map (\<lambda>i. zip xs ys ! i) idx"
  using assms by (induction idx) auto

lemma perm_indices_in_range:
  assumes "mset idx = mset [0..<n]"
  shows "list_all (\<lambda>i. i < n) idx"
proof -
  have "set idx = set [0..<n]"
    using assms by (metis set_mset_mset)
  then show ?thesis by (auto simp: list_all_iff)
qed

text \<open>
  C3. The shuffle of \<open>fMRI/parameters.py\<close> draws one index vector \<open>rand\<close>, a permutation
  of the positions, and reads \<open>Conditions\<close> and \<open>Modality\<close> through it. With the even
  trial count that the file configures (both arrays then have one length) the multiset
  of condition labels, the multiset of modality labels and the multiset of
  (condition, modality) pairs are the same before and after shuffling. The in-place
  shuffle of \<open>parameters.py\<close> keeps the multiset of labels for every trial count.
\<close>

theorem shuffle_preserves_plan:
  assumes "even nTrials"
  shows "\<exists>rand p g'.
           fMRI_plan nTrials exteroception g = Inr (p, g') \<and>
           mset rand = mset [0..<length (modality_vector nTrials exteroception)] \<and>
           Conditions p = map (\<lambda>i. tiled_conditions nTrials exteroception ! i) rand \<and>
           Modality p = map (\<lambda>i. modality_vector nTrials exteroception ! i) rand \<and>
           mset (Conditions p) = mset (tiled_conditions nTrials exteroception) \<and>
           mset (Modality p) = mset (modality_vector nTrials exteroception) \<and>
           mset (zip (Conditions p) (Modality p)) =
             mset (zip (tiled_conditions nTrials exteroception)
                       (modality_vector nTrials exteroception)) \<and>
           mset (fst (HRD_conditions nTrials g)) = mset (condition_vector nTrials)"
proof -
  let ?C = "tiled_conditions nTrials exteroception"
  let ?M = "modality_vector nTrials exteroception"
  have sl: "length ?C = length ?M"
    using assms by (rule same_length_even_any)
  from fMRI_plan_same_length [OF sl, of g] obtain rand g' where
    p: "mset rand = mset [0..<length ?M]" and
    r: "fMRI_plan nTrials exteroception g =
          Inr (\<lparr>Conditions = map (\<lambda>i. ?C ! i) rand, Modality = map (\<lambda>i. ?M ! i) rand\<rparr>, g')"
    by blast
  have pc: "mset rand = mset [0..<length ?C]"
    unfolding sl by (rule p)
  have mc: "mset (map (\<lambda>i. ?C ! i) rand) = mset ?C"
    using pc by (rule mset_map_nth_perm)
  have mm: "mset (map (\<lambda>i. ?M ! i) rand) = mset ?M"
    using p by (rule mset_map_nth_perm)
  have rg: "list_all (\<lambda>i. i < length ?C) rand"
    using pc by (rule perm_indices_in_range)
  have z: "zip (map (\<lambda>i. ?C ! i) rand) (map (\<lambda>i. ?M ! i) rand) = map (\<lambda>i. zip ?C ?M ! i) rand"
    using sl rg by (rule zip_map_nth)
  have pz: "mset rand = mset [0..<length (zip ?C ?M)]"
    using pc sl by (simp only: length_zip min.idem)
  have mz: "mset (map (\<lambda>i. zip ?C ?M ! i) rand) = mset (zip ?C ?M)"
    using pz by (rule mset_map_nth_perm)
  have h: "mset (fst (HRD_conditions nTrials g)) = mset (condition_vector nTrials)"
    by (simp add: HRD_conditions_def np_random_shuffle_mset)
  let ?p = "\<lparr>Conditions = map (\<lambda>i. ?C ! i) rand, Modality = map (\<lambda>i. ?M ! i) rand\<rparr>"
  have "fMRI_plan nTrials exteroception g = Inr (?p, g') \<and>
        mset rand = mset [0..<length ?M] \<and>
        Conditions ?p = map (\<lambda>i. ?C ! i) rand \<and>
        Modality ?p = map (\<lambda>i. ?M ! i) rand \<and>
        mset (Conditions ?p) = mset ?C \<and>
        mset (Modality ?p) = mset ?M \<and>
        mset (zip (Conditions ?p) (Modality ?p)) = mset (zip ?C ?M) \<and>
        mset (fst (HRD_conditions nTrials g)) = mset (condition_vector nTrials)"
    using r p mc mm z mz h by simp
  then show ?thesis by blast
qed

theorem shuffle_preserves_plan_witness:
  "even (10 :: int) \<and>
   (\<exists>rand p g'.
      fMRI_plan 10 True [3, 1, 4, 1, 5] = Inr (p, g') \<and>
      mset rand = mset [0..<length (modality_vector 10 True)] \<and>
      Conditions p = map (\<lambda>i. tiled_conditions 10 True ! i) rand \<and>
      Modality p = map (\<lambda>i. modality_vector 10 True ! i) rand \<and>
      mset (Conditions p) = mset (tiled_conditions 10 True) \<and>
      mset (Modality p) = mset (modality_vector 10 True) \<and>
      mset (zip (Conditions p) (Modality p)) =
        mset (zip (tiled_conditions 10 True) (modality_vector 10 True)) \<and>
      mset (fst (HRD_conditions 10 [3, 1, 4, 1, 5])) = mset (condition_vector 10))"
proof -
  have e: "even (10 :: int)" by simp
  from shuffle_preserves_plan [OF e, of True "[3, 1, 4, 1, 5]"] e show ?thesis
    by blast
qed

section \<open>Claims about \<open>getParameters\<close>\<close>

lemma stairCase_of_invalid:
  "nStaircase \<noteq> 1 \<Longrightarrow> nStaircase \<noteq> 2 \<Longrightarrow>
     stairCase_of nStaircase stairType n = Inl (ValueError ''Invalid number of Staircase'')"
  by (simp add: stairCase_of_def)

lemma stairCase_of_valid:
  "nStaircase = 1 \<or> nStaircase = 2 \<Longrightarrow> \<exists>sc. stairCase_of nStaircase stairType n = Inr sc"
  by (auto simp: stairCase_of_def)

lemma fMRI_plan_10: "\<exists>pl g'. fMRI_plan 10 exteroception g = Inr (pl, g')"
  using fMRI_plan_even [of 10 exteroception g] by auto

text \<open>
  C10. For every \<open>nStaircase\<close> other than 1 and 2, \<open>getParameters\<close> raises
  \<open>ValueError('Invalid number of Staircase')\<close>: the result is the error, and no
  staircase is stored. For \<open>nStaircase\<close> equal to 1 or 2 the modelled part raises
  nothing, whatever the other arguments and the generator state are.
\<close>

theorem invalid_number_of_staircase:
  "(nStaircase \<noteq> 1 \<and> nStaircase \<noteq> 2 \<longrightarrow>
      getParameters subjectID subjectNumber nStaircase exteroception stairType g =
        Inl (ValueError ''Invalid number of Staircase'')) \<and>
   (nStaircase = 1 \<or> nStaircase = 2 \<longrightarrow>
      (\<exists>ps g'. getParameters subjectID subjectNumber nStaircase exteroception stairType g =
         Inr (ps, g') \<and> p_nStaircase ps = nStaircase))"
proof -
  obtain pl g' where pl: "fMRI_plan 10 exteroception g = Inr (pl, g')"
    using fMRI_plan_10 by blast
  have bad: "nStaircase \<noteq> 1 \<and> nStaircase \<noteq> 2 \<longrightarrow>
      getParameters subjectID subjectNumber nStaircase exteroception stairType g =
        Inl (ValueError ''Invalid number of Staircase'')"
    using pl by (simp add: getParameters_def stairCase_of_invalid)
  have good: "nStaircase = 1 \<or> nStaircase = 2 \<longrightarrow>
      (\<exists>ps g'. getParameters subjectID subjectNumber nStaircase exteroception stairType g =
         Inr (ps, g') \<and> p_nStaircase ps = nStaircase)"
  proof
    assume "nStaircase = 1 \<or> nStaircase = 2"
    then obtain sc where "stairCase_of nStaircase stairType 10 = Inr sc"
      using stairCase_of_valid by blast
    with pl show "\<exists>ps g'. getParameters subjectID subjectNumber nStaircase exteroception
        stairType g = Inr (ps, g') \<and> p_nStaircase ps = nStaircase"
      by (simp add: getParameters_def)
  qed
  from bad good show ?thesis by simp
qed

theorem invalid_number_of_staircase_witness:
  "getParameters ''sub01'' 1 3 True ''psi'' [2, 7] =
     Inl (ValueError ''Invalid number of Staircase'') \<and>
   getParameters ''sub01'' 1 0 False ''UpDown'' [] =
     Inl (ValueError ''Invalid number of Staircase'') \<and>
   (\<exists>ps g'. getParameters ''sub01'' 1 2 True ''psi'' [2, 7] = Inr (ps, g') \<and>
      p_nStaircase ps = 2) \<and>
   (\<exists>ps g'. getParameters ''sub01'' 1 1 False ''UpDown'' [] = Inr (ps, g') \<and>
      p_nStaircase ps = 1)"
  using invalid_number_of_staircase [of 3 "''sub01''" 1 True "''psi''" "[2, 7]"]
    invalid_number_of_staircase [of 0 "''sub01''" 1 False "''UpDown''" "[]"]
    invalid_number_of_staircase [of 2 "''sub01''" 1 True "''psi''" "[2, 7]"]
    invalid_number_of_staircase [of 1 "''sub01''" 1 False "''UpDown''" "[]"]
  by simp

text \<open>
  C7, as amended. The shuffles draw from numpy's process-wide generator, which is not a
  parameter of \<open>getParameters\<close>. Plan generation is deterministic given the state of
  that generator: two runs that each follow \<open>np.random.seed(s)\<close> with one seed \<open>s\<close>
  produce identical plans (and identical results of \<open>getParameters\<close>), whatever state
  the generator was in before.
\<close>

theorem plan_determined_by_generator_state:
  "fMRI_plan nTrials exteroception (np_random_seed init s g1) =
     fMRI_plan nTrials exteroception (np_random_seed init s g2) \<and>
   HRD_conditions nTrials (np_random_seed init s g1) =
     HRD_conditions nTrials (np_random_seed init s g2) \<and>
   getParameters subjectID subjectNumber nStaircase exteroception stairType
       (np_random_seed init s g1) =
     getParameters subjectID subjectNumber nStaircase exteroception stairType
       (np_random_seed init s g2)"
  by (simp add: np_random_seed_def)

theorem plan_determined_by_generator_state_witness:
  "fMRI_plan 10 True (np_random_seed (\<lambda>s. [s, Suc s]) 42 []) =
     fMRI_plan 10 True (np_random_seed (\<lambda>s. [s, Suc s]) 42 [1]) \<and>
   HRD_conditions 10 (np_random_seed (\<lambda>s. [s, Suc s]) 42 []) =
     HRD_conditions 10 (np_random_seed (\<lambda>s. [s, Suc s]) 42 [1]) \<and>
   getParameters ''sub01'' 1 2 True ''psi'' (np_random_seed (\<lambda>s. [s, Suc s]) 42 []) =
     getParameters ''sub01'' 1 2 True ''psi'' (np_random_seed (\<lambda>s. [s, Suc s]) 42 [1])"
  by (rule plan_determined_by_generator_state)

text \<open>
  C7 as stated fails: with one list of arguments, \<open>getParameters\<close> returns different
  \<open>Conditions\<close> from two states of the hidden generator.
\<close>

theorem hidden_generator_counterexample:
  "p_Conditions (fst (projr (getParameters ''sub01'' 1 2 False ''psi'' []))) =
     [''More'', ''More'', ''More'', ''More'', ''Less'',
      ''Less'', ''Less'', ''Less'', ''Less'', ''More''] \<and>
   p_Conditions (fst (projr (getParameters ''sub01'' 1 2 False ''psi'' [1]))) =
     [''Less'', ''More'', ''More'', ''More'', ''Less'',
      ''Less'', ''Less'', ''Less'', ''More'', ''More'']"
  by code_simp

section \<open>Claims about the convergence estimate\<close>

lemma mask_select_filter:
  "mask_select (map f xs) (map P xs) = map f (filter P xs)"
  by (induction xs) (auto simp: mask_select_def)

lemma revers_of_informative_points:
  "revers_of results_df = informative_points (history_of results_df)"
proof -
  have "mask_select (map r_Alpha results_df) (map (\<lambda>r. r_Accuracy r = 0) results_df) =
        map r_Alpha (filter (\<lambda>r. r_Accuracy r = 0) results_df)"
    by (rule mask_select_filter)
  then have "revers_of results_df =
        map (\<lambda>r. \<bar>r_Alpha r\<bar>) (filter (\<lambda>r. r_Accuracy r = 0) results_df)"
    by (simp add: revers_of_def comp_def)
  also have "\<dots> = informative_points (history_of results_df)"
    by (induction results_df) (auto simp: informative_points_def history_of_def)
  finally show ?thesis .
qed

lemma length_madmedianrule: "length (madmedianrule a) = length a"
  by (simp add: madmedianrule_def split: npfloat.splits)

lemma length_filter_mset_eq:
  "mset xs = mset ys \<Longrightarrow> length (filter P xs) = length (filter P ys)"
proof -
  assume "mset xs = mset ys"
  then have "mset (filter P xs) = mset (filter P ys)" by simp
  then show ?thesis by (rule mset_eq_length)
qed

lemma sorted_nth_order_stat:
  fixes s :: "real list"
  assumes s: "sorted s" and k: "k < length s"
  shows "length (filter (\<lambda>x. x < s ! k) s) \<le> k"
    and "k < length (filter (\<lambda>x. x \<le> s ! k) s)"
proof -
  have hi: "\<forall>x \<in> set (drop k s). s ! k \<le> x"
  proof
    fix x assume "x \<in> set (drop k s)"
    then obtain i where i: "i < length (drop k s)" "drop k s ! i = x"
      by (auto simp: in_set_conv_nth)
    then have "x = s ! (k + i)" using k by simp
    moreover have "s ! k \<le> s ! (k + i)"
      using s i k by (intro sorted_nth_mono) auto
    ultimately show "s ! k \<le> x" by simp
  qed
  have "filter (\<lambda>x. x < s ! k) (drop k s) = []"
    using hi by (auto simp: filter_empty_conv)
  then have "filter (\<lambda>x. x < s ! k) s = filter (\<lambda>x. x < s ! k) (take k s)"
    using filter_append [of "\<lambda>x. x < s ! k" "take k s" "drop k s"] by simp
  moreover have "length (filter (\<lambda>x. x < s ! k) (take k s)) \<le> length (take k s)"
    by (rule length_filter_le)
  ultimately show "length (filter (\<lambda>x. x < s ! k) s) \<le> k" by simp
  have lo: "\<forall>x \<in> set (take (Suc k) s). x \<le> s ! k"
  proof
    fix x assume "x \<in> set (take (Suc k) s)"
    then obtain i where i: "i < length (take (Suc k) s)" "take (Suc k) s ! i = x"
      by (auto simp: in_set_conv_nth)
    then have "i \<le> k" "x = s ! i" using k by auto
    then show "x \<le> s ! k" using s k by (auto intro: sorted_nth_mono)
  qed
  have "filter (\<lambda>x. x \<le> s ! k) (take (Suc k) s) = take (Suc k) s"
    using lo by (simp add: filter_id_conv)
  then have "length (filter (\<lambda>x. x \<le> s ! k) s) =
      length (take (Suc k) s) + length (filter (\<lambda>x. x \<le> s ! k) (drop (Suc k) s))"
    using filter_append [of "\<lambda>x. x \<le> s ! k" "take (Suc k) s" "drop (Suc k) s"] by simp
  then show "k < length (filter (\<lambda>x. x \<le> s ! k) s)" using k by simp
qed

lemma order_stat_sort:
  assumes "k < length xs"
  shows "order_stat xs k (sort xs ! k)"
proof -
  have m: "mset (sort xs) = mset xs" by simp
  have k: "k < length (sort xs)" using assms by simp
  have "sort xs ! k \<in> set (sort xs)" using k by (rule nth_mem)
  then have mem: "sort xs ! k \<in> set xs" by simp
  have a: "length (filter (\<lambda>x. x < sort xs ! k) xs) \<le> k"
    using sorted_nth_order_stat(1) [OF sorted_sort k]
      length_filter_mset_eq [OF m, of "\<lambda>x. x < sort xs ! k"] by simp
  have b: "k < length (filter (\<lambda>x. x \<le> sort xs ! k) xs)"
    using sorted_nth_order_stat(2) [OF sorted_sort k]
      length_filter_mset_eq [OF m, of "\<lambda>x. x \<le> sort xs ! k"] by simp
  from mem a b show ?thesis by (simp add: order_stat_def)
qed

lemma length_filter_mono:
  "(\<And>x. x \<in> set xs \<Longrightarrow> P x \<Longrightarrow> Q x) \<Longrightarrow> length (filter P xs) \<le> length (filter Q xs)"
  by (induction xs) auto

lemma order_stat_unique:
  assumes "order_stat xs k v" "order_stat xs k w"
  shows "v = w"
proof -
  have lt: "\<not> a < b" if "order_stat xs k a" "order_stat xs k b" for a b
  proof
    assume "a < b"
    then have "length (filter (\<lambda>x. x \<le> a) xs) \<le> length (filter (\<lambda>x. x < b) xs)"
      by (intro length_filter_mono) auto
    with that show False by (simp add: order_stat_def)
  qed
  from lt [OF assms] lt [OF assms(2) assms(1)] show ?thesis by simp
qed

lemma is_median_unique:
  assumes "is_median xs m" "is_median xs m'"
  shows "m = m'"
  using assms unfolding is_median_def by (metis order_stat_unique)

lemma np_median_is_median:
  assumes "xs \<noteq> []"
  shows "\<exists>m. np_median xs = Val m \<and> is_median xs m"
proof -
  let ?n = "length xs"
  let ?lo = "sort xs ! ((?n - 1) div 2)"
  let ?hi = "sort xs ! (?n div 2)"
  have n: "0 < ?n" using assms by simp
  then have k1: "(?n - 1) div 2 < ?n" and k2: "?n div 2 < ?n" by presburger+
  have o1: "order_stat xs ((?n - 1) div 2) ?lo" using k1 by (rule order_stat_sort)
  have o2: "order_stat xs (?n div 2) ?hi" using k2 by (rule order_stat_sort)
  have med: "is_median xs ((?lo + ?hi) / 2)"
    unfolding is_median_def using o1 o2 by (auto simp: order_stat_def)
  have "np_median xs = Val ((?lo + ?hi) / 2)"
  proof (cases "odd ?n")
    case True
    then have "(?n - 1) div 2 = ?n div 2" by presburger
    with True assms show ?thesis by (simp add: np_median_def)
  next
    case False
    then have "(?n - 1) div 2 = ?n div 2 - 1" using n by presburger
    with False assms show ?thesis by (simp add: np_median_def)
  qed
  with med show ?thesis by blast
qed

lemma is_median_ge_some:
  assumes "is_median ys m"
  shows "\<exists>y \<in> set ys. y \<le> m"
proof -
  from assms obtain lo hi where h: "lo \<in> set ys" "hi \<in> set ys" "m = (lo + hi) / 2"
    unfolding is_median_def by blast
  show ?thesis
  proof (cases "lo \<le> hi")
    case True
    with h have "lo \<le> m" by simp
    with h show ?thesis by blast
  next
    case False
    with h have "hi \<le> m" by simp
    with h show ?thesis by blast
  qed
qed


lemma order_stat_scale:
  assumes "order_stat ys k v" "0 < c"
  shows "order_stat (map (\<lambda>y. y / c) ys) k (v / c)"
proof -
  have a: "filter (\<lambda>x. x < v / c) (map (\<lambda>y. y / c) ys) =
           map (\<lambda>y. y / c) (filter (\<lambda>y. y < v) ys)"
    using assms(2) by (simp add: filter_map comp_def divide_less_cancel)
  have b: "filter (\<lambda>x. x \<le> v / c) (map (\<lambda>y. y / c) ys) =
           map (\<lambda>y. y / c) (filter (\<lambda>y. y \<le> v) ys)"
    using assms(2) by (simp add: filter_map comp_def divide_le_cancel)
  have "v / c \<in> set (map (\<lambda>y. y / c) ys)"
    using assms(1) by (auto simp: order_stat_def)
  moreover have "length (filter (\<lambda>x. x < v / c) (map (\<lambda>y. y / c) ys)) \<le> k"
    unfolding a using assms(1) by (simp add: order_stat_def)
  moreover have "k < length (filter (\<lambda>x. x \<le> v / c) (map (\<lambda>y. y / c) ys))"
    unfolding b using assms(1) by (simp add: order_stat_def)
  ultimately show ?thesis unfolding order_stat_def by blast
qed

lemma is_median_scale:
  assumes "is_median ys d" "0 < c"
  shows "is_median (map (\<lambda>y. y / c) ys) (d / c)"
proof -
  from assms(1) obtain lo hi where
    h: "order_stat ys ((length ys - 1) div 2) lo" "order_stat ys (length ys div 2) hi"
       "d = (lo + hi) / 2"
    unfolding is_median_def by blast
  have o1: "order_stat (map (\<lambda>y. y / c) ys) ((length (map (\<lambda>y. y / c) ys) - 1) div 2) (lo / c)"
    using order_stat_scale [OF h(1) assms(2)] by simp
  have o2: "order_stat (map (\<lambda>y. y / c) ys) (length (map (\<lambda>y. y / c) ys) div 2) (hi / c)"
    using order_stat_scale [OF h(2) assms(2)] by simp
  have e: "d / c = (lo / c + hi / c) / 2"
    using h(3) by (simp add: add_divide_distrib)
  from o1 o2 e show ?thesis
    unfolding is_median_def order_stat_def by blast
qed

lemma mad_constants: "0 < mad_c" "mad_c \<le> mad_k"
  by (simp_all add: mad_c_def mad_k_def)

lemma mask_select_Not_map:
  "mask_select xs (map Not (map P xs)) = filter (\<lambda>x. \<not> P x) xs"
  by (induction xs) (auto simp: mask_select_def)

lemma madmedianrule_inliers:
  assumes m1: "np_median pts = Val med"
    and m2: "np_median (map (\<lambda>x. \<bar>x - med\<bar> / mad_c) pts) = Val mad"
    and nn: "0 \<le> mad"
  shows "mask_select pts (map Not (madmedianrule pts)) =
         filter (\<lambda>x. \<bar>x - med\<bar> \<le> mad_k * mad) pts"
proof -
  have flag: "(if mad = 0 then \<bar>x - med\<bar> \<noteq> 0 else \<bar>x - med\<bar> / mad > mad_k) \<longleftrightarrow>
      \<not> \<bar>x - med\<bar> \<le> mad_k * mad" for x
  proof (cases "mad = 0")
    case True
    then show ?thesis by simp
  next
    case False
    with nn have "0 < mad" by simp
    then show ?thesis using False by (simp add: pos_less_divide_eq not_le)
  qed
  have "madmedianrule pts = map (\<lambda>x. \<not> \<bar>x - med\<bar> \<le> mad_k * mad) pts"
    unfolding madmedianrule_def using m1 m2 by (simp add: flag)
  then show ?thesis by (simp only: mask_select_Not_map not_not)
qed

text \<open>
  C2. The convergence value of \<open>hrd_convergence\<close> is the median of the absolute intensity
  offsets of the trials with accuracy 0 that remain after the points lying more than
  \<open>mad_k\<close> scaled median absolute deviations from their median are excluded. With no trial
  of accuracy 0 the value is \<open>nan\<close>; otherwise some point always remains.
\<close>

theorem convergence_estimate_median_of_inliers:
  "(informative_points (history_of results_df) = [] \<and>
      hrd_convergence_conv madmedianrule results_df = Inr NaN) \<or>
   (\<exists>med d m.
      is_median (informative_points (history_of results_df)) med \<and>
      is_median (absolute_deviations (informative_points (history_of results_df)) med) d \<and>
      is_median (inliers (informative_points (history_of results_df)) med d) m \<and>
      hrd_convergence_conv madmedianrule results_df = Inr (Val m))"
proof (cases "informative_points (history_of results_df) = []")
  case True
  then have "revers_of results_df = []" by (simp add: revers_of_informative_points)
  then have "hrd_convergence_conv madmedianrule results_df = Inr NaN"
    by (simp add: hrd_convergence_conv_def length_madmedianrule mask_select_def np_median_def)
  with True show ?thesis by simp
next
  case False
  define pts where "pts = informative_points (history_of results_df)"
  have pts: "pts \<noteq> []" using False by (simp add: pts_def)
  have rv: "revers_of results_df = pts"
    by (simp add: pts_def revers_of_informative_points)
  from np_median_is_median [OF pts] obtain med where
    med: "np_median pts = Val med" "is_median pts med" by blast
  have devs: "absolute_deviations pts med \<noteq> []"
    using pts by (simp add: absolute_deviations_def)
  from np_median_is_median [OF devs] obtain d where
    d: "is_median (absolute_deviations pts med) d" by blast
  have sc: "map (\<lambda>x. \<bar>x - med\<bar> / mad_c) pts =
            map (\<lambda>y. y / mad_c) (absolute_deviations pts med)"
    by (simp add: absolute_deviations_def comp_def)
  have dsc: "is_median (map (\<lambda>x. \<bar>x - med\<bar> / mad_c) pts) (d / mad_c)"
    unfolding sc using d mad_constants(1) by (rule is_median_scale)
  have "map (\<lambda>x. \<bar>x - med\<bar> / mad_c) pts \<noteq> []" using pts by simp
  from np_median_is_median [OF this] obtain mad where
    mad: "np_median (map (\<lambda>x. \<bar>x - med\<bar> / mad_c) pts) = Val mad"
         "is_median (map (\<lambda>x. \<bar>x - med\<bar> / mad_c) pts) mad" by blast
  have mad_eq: "mad = d / mad_c"
    using mad(2) dsc by (rule is_median_unique)
  from is_median_ge_some [OF d] obtain y where
    y: "y \<in> set (absolute_deviations pts med)" "y \<le> d" by blast
  then obtain x0 where x0: "x0 \<in> set pts" "y = \<bar>x0 - med\<bar>"
    by (auto simp: absolute_deviations_def)
  have d0: "0 \<le> d" using y x0 by simp
  have nn: "0 \<le> mad" using d0 mad_constants(1) by (simp add: mad_eq)
  have "\<bar>x0 - med\<bar> \<le> d" using y x0 by simp
  also have "d = mad_c * (d / mad_c)" using mad_constants(1) by simp
  also have "\<dots> \<le> mad_k * (d / mad_c)"
    using mad_constants d0 by (intro mult_right_mono) simp_all
  finally have "x0 \<in> set (inliers pts med d)"
    using x0 by (simp add: inliers_def)
  then have kept: "inliers pts med d \<noteq> []" by auto
  from np_median_is_median [OF kept] obtain m where
    m: "np_median (inliers pts med d) = Val m" "is_median (inliers pts med d) m" by blast
  have "mask_select pts (map Not (madmedianrule pts)) = inliers pts med d"
    using madmedianrule_inliers [OF med(1) mad(1) nn] by (simp add: inliers_def mad_eq)
  then have "hrd_convergence_conv madmedianrule results_df = Inr (Val m)"
    using m(1) by (simp add: hrd_convergence_conv_def rv length_madmedianrule)
  with med(2) d m(2) show ?thesis unfolding pts_def by blast
qed


theorem convergence_estimate_median_of_inliers_witness:
  "informative_points (history_of
     [\<lparr>r_nTrials = 1, r_Alpha = 20, r_Accuracy = 1\<rparr>,
      \<lparr>r_nTrials = 2, r_Alpha = - 3, r_Accuracy = 0\<rparr>,
      \<lparr>r_nTrials = 3, r_Alpha = 2, r_Accuracy = 0\<rparr>,
      \<lparr>r_nTrials = 4, r_Alpha = - 4, r_Accuracy = 0\<rparr>,
      \<lparr>r_nTrials = 5, r_Alpha = 40, r_Accuracy = 0\<rparr>,
      \<lparr>r_nTrials = 6, r_Alpha = 3, r_Accuracy = 1\<rparr>]) = [3, 2, 4, 40] \<and>
   is_median [3, 2, 4, 40] (7 / 2) \<and>
   is_median (absolute_deviations [3, 2, 4, 40] (7 / 2)) 1 \<and>
   inliers [3, 2, 4, 40] (7 / 2) 1 = [3, 2, 4] \<and>
   is_median [3, 2, 4] 3 \<and>
   hrd_convergence_conv madmedianrule
     [\<lparr>r_nTrials = 1, r_Alpha = 20, r_Accuracy = 1\<rparr>,
      \<lparr>r_nTrials = 2, r_Alpha = - 3, r_Accuracy = 0\<rparr>,
      \<lparr>r_nTrials = 3, r_Alpha = 2, r_Accuracy = 0\<rparr>,
      \<lparr>r_nTrials = 4, r_Alpha = - 4, r_Accuracy = 0\<rparr>,
      \<lparr>r_nTrials = 5, r_Alpha = 40, r_Accuracy = 0\<rparr>,
      \<lparr>r_nTrials = 6, r_Alpha = 3, r_Accuracy = 1\<rparr>] = Inr (Val 3)"
proof -
  define rows where "rows =
     [\<lparr>r_nTrials = 1, r_Alpha = 20, r_Accuracy = 1\<rparr>,
      \<lparr>r_nTrials = 2, r_Alpha = - 3, r_Accuracy = 0\<rparr>,
      \<lparr>r_nTrials = 3, r_Alpha = 2, r_Accuracy = 0\<rparr>,
      \<lparr>r_nTrials = 4, r_Alpha = - 4, r_Accuracy = 0\<rparr>,
      \<lparr>r_nTrials = 5, r_Alpha = 40, r_Accuracy = 0\<rparr>,
      \<lparr>r_nTrials = 6, r_Alpha = 3, r_Accuracy = (1::int)\<rparr>]"
  have e: "informative_points (history_of rows) = [3, 2, 4, 40]"
    by (simp add: rows_def informative_points_def history_of_def)
  have a: "is_median [3, 2, 4, 40] (7 / 2)"
    by code_simp
  have b: "is_median (absolute_deviations [3, 2, 4, 40] (7 / 2)) 1"
    by code_simp
  have c: "inliers [3, 2, 4, 40] (7 / 2) 1 = [3, 2, 4]"
    by code_simp
  have d: "is_median [3, 2, 4] 3"
    by code_simp
  from convergence_estimate_median_of_inliers [of rows] obtain med dev m where
    h: "is_median [3, 2, 4, 40] med"
       "is_median (absolute_deviations [3, 2, 4, 40] med) dev"
       "is_median (inliers [3, 2, 4, 40] med dev) m"
       "hrd_convergence_conv madmedianrule rows = Inr (Val m)"
    unfolding e by auto
  have med: "med = 7 / 2" using h(1) a by (rule is_median_unique)
  have dev: "dev = 1" using h(2) b unfolding med by (rule is_median_unique)
  have "m = 3" using h(3) d unfolding med dev c by (rule is_median_unique)
  with h(4) have "hrd_convergence_conv madmedianrule rows = Inr (Val 3)" by simp
  with e a b c d show ?thesis unfolding rows_def by simp
qed

section \<open>Claims about the up-down staircase\<close>

lemma clamp_in_range: "lo \<le> hi \<Longrightarrow> lo \<le> clamp lo hi x \<and> clamp lo hi x \<le> hi"
  by (simp add: clamp_def)

lemma updown_move_cfg:
  "cfg_minVal (updown_move d s) = cfg_minVal s \<and> cfg_maxVal (updown_move d s) = cfg_maxVal s"
  by (simp add: updown_move_def Let_def)

lemma updown_move_in_range:
  assumes "cfg_minVal s \<le> cfg_maxVal s"
  shows "cfg_minVal s \<le> current_intensity (updown_move d s) \<and>
         current_intensity (updown_move d s) \<le> cfg_maxVal s"
  using clamp_in_range [OF assms] by (simp add: updown_move_def Let_def)

lemma updown_update_unfold:
  "updown_update s c =
     (if c \<and> int (cfg_nDown s) \<le>
          (if c then (if 0 < consecutive_same_direction s
                      then consecutive_same_direction s + 1 else 1)
           else (if consecutive_same_direction s < 0
                 then consecutive_same_direction s - 1 else - 1))
      then updown_move Down
             (s\<lparr>history := history s @ [(current_intensity s, c)],
                consecutive_same_direction :=
                  (if c then (if 0 < consecutive_same_direction s
                              then consecutive_same_direction s + 1 else 1)
                   else (if consecutive_same_direction s < 0
                         then consecutive_same_direction s - 1 else - 1))\<rparr>)
      else if \<not> c \<and> int (cfg_nUp s) \<le>
          - (if c then (if 0 < consecutive_same_direction s
                      then consecutive_same_direction s + 1 else 1)
           else (if consecutive_same_direction s < 0
                 then consecutive_same_direction s - 1 else - 1))
      then updown_move Up
             (s\<lparr>history := history s @ [(current_intensity s, c)],
                consecutive_same_direction :=
                  (if c then (if 0 < consecutive_same_direction s
                              then consecutive_same_direction s + 1 else 1)
                   else (if consecutive_same_direction s < 0
                         then consecutive_same_direction s - 1 else - 1))\<rparr>)
      else s\<lparr>history := history s @ [(current_intensity s, c)],
              consecutive_same_direction :=
                  (if c then (if 0 < consecutive_same_direction s
                              then consecutive_same_direction s + 1 else 1)
                   else (if consecutive_same_direction s < 0
                         then consecutive_same_direction s - 1 else - 1))\<rparr>)"
  unfolding updown_update_def Let_def by (rule refl)

lemma updown_update_cfg:
  "cfg_minVal (updown_update s c) = cfg_minVal s \<and>
   cfg_maxVal (updown_update s c) = cfg_maxVal s"
  unfolding updown_update_unfold by (simp add: updown_move_cfg)

lemma updown_update_in_range:
  assumes "cfg_minVal s \<le> cfg_maxVal s"
    and "cfg_minVal s \<le> current_intensity s" and "current_intensity s \<le> cfg_maxVal s"
  shows "cfg_minVal s \<le> current_intensity (updown_update s c) \<and>
         current_intensity (updown_update s c) \<le> cfg_maxVal s"
proof -
  have mv: "cfg_minVal s \<le> current_intensity
              (updown_move d (s\<lparr>history := h, consecutive_same_direction := k\<rparr>)) \<and>
            current_intensity
              (updown_move d (s\<lparr>history := h, consecutive_same_direction := k\<rparr>))
              \<le> cfg_maxVal s" for d h k
    using updown_move_in_range [of "s\<lparr>history := h, consecutive_same_direction := k\<rparr>" d] assms(1)
    by simp
  show ?thesis
    unfolding updown_update_unfold using mv assms(2,3) by simp
qed


lemma updown_trajectory_in_range:
  assumes "cfg_minVal s \<le> cfg_maxVal s"
    and "cfg_minVal s \<le> current_intensity s" and "current_intensity s \<le> cfg_maxVal s"
  shows "list_all (\<lambda>x. cfg_minVal s \<le> x \<and> x \<le> cfg_maxVal s) (updown_trajectory s rs)"
  using assms
proof (induction rs arbitrary: s)
  case Nil
  then show ?case by simp
next
  case (Cons r rs)
  let ?t = "updown_update s r"
  have c: "cfg_minVal ?t = cfg_minVal s" "cfg_maxVal ?t = cfg_maxVal s"
    using updown_update_cfg [of s r] by simp_all
  have r: "cfg_minVal s \<le> current_intensity ?t \<and> current_intensity ?t \<le> cfg_maxVal s"
    using Cons.prems by (rule updown_update_in_range)
  have "list_all (\<lambda>x. cfg_minVal ?t \<le> x \<and> x \<le> cfg_maxVal ?t) (updown_trajectory ?t rs)"
    using Cons.prems(1) r c by (intro Cons.IH) simp_all
  then show ?case
    using r c by (simp add: updown_next_intensity_def)
qed

lemmas updown_eval =
  updown_init_def updown_params_def updown_update_def updown_move_def
  clamp_def updown_next_intensity_def Let_def

text \<open>
  C4. The staircase set up with the arguments that \<open>getParameters\<close> passes
  (\<open>nDown = 2\<close>, \<open>nUp = 1\<close>, \<open>startVal = 40\<close>, steps \<open>[20, 12, 12, 7, 4, 3, 2, 1]\<close>,
  range \<open>[1, 100]\<close>) answers the responses correct, correct, incorrect with the
  intensities 40, 20, 40: no move after the first correct response, 20 down after the
  second, 20 up after the incorrect one. The first move counts no reversal, the second
  counts one. For every response script the intensity after each response lies in
  \<open>[1, 100]\<close>.
\<close>

theorem updown_configured_trajectory:
  "\<exists>s0. updown_init (updown_params 40) = Inr s0 \<and>
      updown_trajectory s0 [True, True, False] = [40, 20, 40] \<and>
      direction (updown_run s0 [True, True]) = Down \<and>
      n_reversals (updown_run s0 [True, True]) = 0 \<and>
      direction (updown_run s0 [True, True, False]) = Up \<and>
      n_reversals (updown_run s0 [True, True, False]) = 1 \<and>
      (\<forall>rs. list_all (\<lambda>x. 1 \<le> x \<and> x \<le> 100) (updown_trajectory s0 rs))"
proof -
  define s0 where "s0 = projr (updown_init (updown_params 40))"
  have i: "updown_init (updown_params 40) = Inr s0"
    by (simp add: s0_def updown_init_def updown_params_def)
  have v: "current_intensity s0 = 40" "cfg_minVal s0 = 1" "cfg_maxVal s0 = 100"
    by (simp_all add: s0_def updown_init_def updown_params_def)
  have t: "updown_trajectory s0 [True, True, False] = [40, 20, 40]"
    by (simp add: s0_def updown_eval)
  have r2: "direction (updown_run s0 [True, True]) = Down"
    "n_reversals (updown_run s0 [True, True]) = 0"
    by (simp_all add: s0_def updown_eval)
  have r3: "direction (updown_run s0 [True, True, False]) = Up"
    "n_reversals (updown_run s0 [True, True, False]) = 1"
    by (simp_all add: s0_def updown_eval)
  have rg: "list_all (\<lambda>x. 1 \<le> x \<and> x \<le> 100) (updown_trajectory s0 rs)" for rs
    using updown_trajectory_in_range [of s0 rs] v by simp
  show ?thesis
    using i t r2 r3 rg by (intro exI [of _ s0]) simp
qed

theorem updown_configured_trajectory_witness:
  "\<exists>s0. updown_init (updown_params 40) = Inr s0 \<and>
      updown_trajectory s0 [True, True, False] = [40, 20, 40] \<and>
      list_all (\<lambda>x. 1 \<le> x \<and> x \<le> 100)
        (updown_trajectory s0 [True, True, False, True, True, False, True, True, False, True])"
proof -
  from updown_configured_trajectory obtain s0 where
    "updown_init (updown_params 40) = Inr s0"
    "updown_trajectory s0 [True, True, False] = [40, 20, 40]"
    "\<forall>rs. list_all (\<lambda>x. 1 \<le> x \<and> x \<le> 100) (updown_trajectory s0 rs)"
    by blast
  then show ?thesis by blast
qed

section \<open>Claims about the Psi staircase\<close>

lemma total_mass_divide:
  "total_mass (map (\<lambda>(ab, m). (ab, m / c)) grid) = total_mass grid / c"
  by (induction grid) (auto simp: total_mass_def add_divide_distrib)

lemma total_mass_pos:
  "grid \<noteq> [] \<Longrightarrow> list_all (\<lambda>(ab, m). 0 < m) grid \<Longrightarrow> 0 < total_mass grid"
proof (induction grid)
  case Nil
  then show ?case by simp
next
  case (Cons c grid)
  show ?case
  proof (cases "grid = []")
    case True
    with Cons.prems show ?thesis by (auto simp: total_mass_def)
  next
    case False
    with Cons have "0 < total_mass grid" by simp
    with Cons.prems show ?thesis by (auto simp: total_mass_def)
  qed
qed

lemma total_mass_const:
  "total_mass (map (\<lambda>ab. (ab, c)) cells) = real (length cells) * c"
  by (induction cells) (auto simp: total_mass_def algebra_simps)

lemma psi_update_normalized:
  assumes "psi_update pf s x c = Inr s'"
  shows "total_mass (posterior s') = 1"
proof -
  define u where "u = reweigh pf x c (posterior s)"
  have nz: "total_mass u \<noteq> 0"
    using assms unfolding psi_update_def u_def by (auto split: if_splits)
  then have "posterior s' = map (\<lambda>(ab, m). (ab, m / total_mass u)) u"
    using assms unfolding psi_update_def u_def by auto
  then have "total_mass (posterior s') = total_mass u / total_mass u"
    by (simp only: total_mass_divide)
  then show ?thesis
    using nz by simp
qed

lemma reweigh_positive:
  assumes "list_all (\<lambda>(ab, m). 0 < m) grid"
    and "list_all (\<lambda>((a, b), m). 0 < pf x a b \<and> pf x a b < 1) grid"
  shows "list_all (\<lambda>(ab, m). 0 < m) (reweigh pf x c grid)"
  using assms by (induction grid) (auto simp: reweigh_def)

lemma divide_positive:
  assumes "list_all (\<lambda>(ab, m). 0 < m) grid" and "0 < (t::real)"
  shows "list_all (\<lambda>(ab, m). 0 < m) (map (\<lambda>(ab, m). (ab, m / t)) grid)"
  using assms by (induction grid) auto

lemma fst_reweigh: "map fst (reweigh pf x c grid) = map fst grid"
  by (induction grid) (auto simp: reweigh_def)

lemma fst_divide: "map fst (map (\<lambda>(ab, m). (ab, m / t)) grid) = map fst grid"
  by (induction grid) auto

lemma cells_only:
  "list_all (\<lambda>((a, b), m). P a b) grid = list_all (\<lambda>(a, b). P a b) (map fst grid)"
  by (induction grid) auto

text \<open>One update from a grid of positive masses, with likelihoods strictly between 0 and 1.\<close>

lemma psi_update_positive:
  assumes ne: "posterior s \<noteq> []"
    and pos: "list_all (\<lambda>(ab, m). 0 < m) (posterior s)"
    and lik: "list_all (\<lambda>((a, b), m). 0 < pf x a b \<and> pf x a b < 1) (posterior s)"
  shows "\<exists>s'. psi_update pf s x c = Inr s' \<and>
           map fst (posterior s') = map fst (posterior s) \<and>
           list_all (\<lambda>(ab, m). 0 < m) (posterior s')"
proof -
  define u where "u = reweigh pf x c (posterior s)"
  have upos: "list_all (\<lambda>(ab, m). 0 < m) u"
    unfolding u_def using pos lik by (rule reweigh_positive)
  have une: "u \<noteq> []" using ne by (simp add: u_def reweigh_def)
  have tp: "0 < total_mass u"
    using une upos by (rule total_mass_pos)
  define s' where "s' = s\<lparr>posterior := map (\<lambda>(ab, m). (ab, m / total_mass u)) u,
               psi_history := psi_history s @ [(x, c)]\<rparr>"
  have r: "psi_update pf s x c = Inr s'"
    unfolding psi_update_def using tp by (simp add: u_def s'_def)
  have f: "map fst (posterior s') = map fst (posterior s)"
    by (simp add: s'_def fst_divide u_def fst_reweigh del: map_map)
  have p: "list_all (\<lambda>(ab, m). 0 < m) (posterior s')"
    using divide_positive [OF upos tp] by (simp add: s'_def)
  from r f p show ?thesis by blast
qed

lemma psi_run_normalized:
  assumes "posterior s \<noteq> []"
    and "list_all (\<lambda>(ab, m). 0 < m) (posterior s)"
    and "total_mass (posterior s) = 1"
    and "list_all (\<lambda>(x, c). list_all (\<lambda>(a, b). 0 < pf x a b \<and> pf x a b < 1)
            (map fst (posterior s))) rs"
  shows "\<exists>s'. psi_run pf s rs = Inr s' \<and> total_mass (posterior s') = 1"
  using assms
proof (induction rs arbitrary: s)
  case Nil
  then show ?case by simp
next
  case (Cons r rs)
  obtain x c where r: "r = (x, c)" by (cases r) auto
  have lik: "list_all (\<lambda>((a, b), m). 0 < pf x a b \<and> pf x a b < 1) (posterior s)"
    using Cons.prems(4) r by (simp add: cells_only)
  from psi_update_positive [where s = s and pf = pf and x = x and c = c,
      OF Cons.prems(1) Cons.prems(2) lik] obtain s1 where
    u: "psi_update pf s x c = Inr s1" and
    f: "map fst (posterior s1) = map fst (posterior s)" and
    p: "list_all (\<lambda>(ab, m). 0 < m) (posterior s1)"
    by blast
  have ne: "posterior s1 \<noteq> []"
    using f Cons.prems(1) by (metis map_is_Nil_conv)
  have m: "total_mass (posterior s1) = 1"
    using u by (rule psi_update_normalized)
  have rest: "list_all (\<lambda>(x, c). list_all (\<lambda>(a, b). 0 < pf x a b \<and> pf x a b < 1)
            (map fst (posterior s1))) rs"
    using Cons.prems(4) by (simp add: f)
  from Cons.IH [OF ne p m rest] obtain s' where
    "psi_run pf s1 rs = Inr s'" "total_mass (posterior s') = 1"
    by blast
  then show ?case
    using u r by simp
qed

lemma grid_points_nonempty:
  "0 < precision \<Longrightarrow> fst bounds \<le> snd bounds \<Longrightarrow> grid_points bounds precision \<noteq> []"
  by (simp add: grid_points_def)

lemma psi_init_state:
  assumes "psi_init p = Inr s0"
  shows "posterior s0 \<noteq> [] \<and> list_all (\<lambda>(ab, m). 0 < m) (posterior s0) \<and>
         total_mass (posterior s0) = 1"
proof -
  define alphas where "alphas = grid_points (alphaRange p) (alphaPrecision p)"
  define betas where "betas = grid_points (betaRange p) (betaPrecision p)"
  define n where "n = length alphas * length betas"
  have ne: "alphas \<noteq> []" "betas \<noteq> []"
    using assms by (auto simp: psi_init_def Let_def alphas_def betas_def split: if_splits)
  then have n: "0 < n" by (simp add: n_def)
  have post: "posterior s0 = map (\<lambda>ab. (ab, 1 / real n)) (List.product alphas betas)"
    using assms ne
    by (auto simp: psi_init_def Let_def alphas_def betas_def n_def split: if_splits)
  have l: "length (List.product alphas betas) = n"
    by (simp add: n_def)
  have "length (posterior s0) = n"
    by (simp only: post length_map l)
  then have a: "posterior s0 \<noteq> []"
    using n by auto
  have b: "list_all (\<lambda>(ab, m). 0 < m) (posterior s0)"
    using n by (simp add: post list_all_iff)
  have c: "total_mass (posterior s0) = 1"
    using n by (simp only: post total_mass_const l) simp
  from a b c show ?thesis by simp
qed

text \<open>
  C5. Every update that returns leaves a posterior of total mass 1, from whatever state.
  From the uniform posterior of the setup, and with a psychometric function whose value
  lies strictly between 0 and 1 at the presented intensities and the points of the
  grid, every sequence of updates returns (the total mass never vanishes) and ends in a
  posterior of total mass 1.
\<close>

theorem psi_posterior_normalized:
  assumes "psi_init p = Inr s0"
    and "list_all (\<lambda>(x, c). list_all (\<lambda>(a, b). 0 < pf x a b \<and> pf x a b < 1)
            (map fst (posterior s0))) rs"
  shows "(\<exists>s. psi_run pf s0 rs = Inr s \<and> total_mass (posterior s) = 1) \<and>
         (\<forall>s x c s'. psi_update pf s x c = Inr s' \<longrightarrow> total_mass (posterior s') = 1)"
proof -
  from psi_init_state [OF assms(1)] have
    i: "posterior s0 \<noteq> []" "list_all (\<lambda>(ab, m). 0 < m) (posterior s0)"
       "total_mass (posterior s0) = 1"
    by simp_all
  have "\<exists>s. psi_run pf s0 rs = Inr s \<and> total_mass (posterior s) = 1"
    using i assms(2) by (rule psi_run_normalized)
  then show ?thesis
    using psi_update_normalized by blast
qed

lemma psi_init_psi_more: "\<exists>s0. psi_init psi_more = Inr s0"
proof -
  have "grid_points (alphaRange psi_more) (alphaPrecision psi_more) \<noteq> []"
    by (rule grid_points_nonempty) (simp_all add: psi_more_def)
  moreover have "grid_points (betaRange psi_more) (betaPrecision psi_more) \<noteq> []"
    by (rule grid_points_nonempty) (simp_all add: psi_more_def)
  ultimately show ?thesis
    by (simp add: psi_init_def Let_def)
qed

lemma sigmoid_bounds:
  fixes t :: real
  shows "0 < 1 / 2 + 9 / 20 * (max 0 t / (1 + max 0 t)) \<and>
         1 / 2 + 9 / 20 * (max 0 t / (1 + max 0 t)) < 1"
proof -
  define w where "w = max 0 t / (1 + max 0 t)"
  have u: "0 \<le> max 0 t" by simp
  have w0: "0 \<le> w" unfolding w_def using u by (intro divide_nonneg_nonneg) simp_all
  have w1: "w < 1" unfolding w_def using u by (simp add: field_simps)
  have "0 < 1 / 2 + 9 / 20 * w \<and> 1 / 2 + 9 / 20 * w < 1"
    using w0 w1 by simp
  then show ?thesis unfolding w_def .
qed

theorem psi_posterior_normalized_witness:
  "\<exists>s0 s. psi_init psi_more = Inr s0 \<and>
     psi_run (\<lambda>x a b. 1 / 2 + 9 / 20 * (max 0 (b * (x - a)) / (1 + max 0 (b * (x - a)))))
       s0 [(3, True), (5, False), (4, True)] = Inr s \<and>
     total_mass (posterior s) = 1"
proof -
  obtain s0 where i: "psi_init psi_more = Inr s0"
    using psi_init_psi_more by blast
  let ?pf = "\<lambda>x a b. 1 / 2 + 9 / 20 * (max 0 (b * (x - a)) / (1 + max 0 (b * (x - a))))"
  have h: "list_all (\<lambda>(x, c). list_all (\<lambda>(a, b). 0 < ?pf x a b \<and> ?pf x a b < 1)
            (map fst (posterior s0))) [(3, True), (5, False), (4, True)]"
    using sigmoid_bounds by (simp add: list_all_iff case_prod_beta)
  from psi_posterior_normalized [OF i h] i show ?thesis by blast
qed

section \<open>Claims about the staircase manager\<close>

lemma manager_init_addresses:
  "manager_init cfgs store0 = (registry, store) \<Longrightarrow>
     map fst registry = map fst cfgs \<and>
     map snd registry = [length store0..<length store0 + length cfgs] \<and>
     store = store0 @ map snd cfgs"
proof (induction cfgs arbitrary: store0 registry store)
  case Nil
  then show ?case by simp
next
  case (Cons c cfgs)
  obtain label obj where c: "c = (label, obj)" by (cases c)
  obtain reg' st' where r: "manager_init cfgs (store0 @ [obj]) = (reg', st')"
    by (cases "manager_init cfgs (store0 @ [obj])")
  from Cons.prems c r have e: "registry = (label, length store0) # reg'" "store = st'"
    by simp_all
  from Cons.IH [OF r] have ih:
    "map fst reg' = map fst cfgs"
    "map snd reg' = [Suc (length store0)..<Suc (length store0) + length cfgs]"
    "st' = (store0 @ [obj]) @ map snd cfgs"
    by (simp_all del: upt_Suc)
  show ?case
    using e ih c by (simp add: upt_conv_Cons del: upt_Suc)
qed

lemma manager_init_distinct_addresses:
  assumes "manager_init cfgs store0 = (registry, store)"
  shows "distinct (map snd registry)"
  using manager_init_addresses [OF assms] by simp

lemma registry_addresses_differ:
  assumes d: "distinct (map snd registry)"
    and a: "map_of registry label = Some a"
    and b: "map_of registry other = Some b"
    and n: "label \<noteq> other"
  shows "a \<noteq> b"
proof
  assume "a = b"
  have m: "(label, a) \<in> set registry" "(other, a) \<in> set registry"
    using \<open>a = b\<close> a b by (auto dest: map_of_SomeD)
  from d have "inj_on snd (set registry)" by (simp add: distinct_map)
  from inj_onD [OF this _ m] have "(label, a) = (other, a)" by simp
  with n show False by simp
qed

lemma report_outcome_frame:
  assumes d: "distinct (map snd registry)"
    and n: "label \<noteq> other"
    and r: "report_outcome update registry store1 label c = Inr store2"
  shows "select_intensity next_intensity registry store2 other =
         select_intensity next_intensity registry store1 other"
proof (cases "map_of registry other")
  case None
  then show ?thesis by (simp add: select_intensity_def)
next
  case (Some b)
  from r obtain a where a: "map_of registry label = Some a"
    and s: "store2 = store1[a := update (store1 ! a) c]"
    by (auto simp: report_outcome_def split: option.splits)
  have "a \<noteq> b" using d a Some n by (rule registry_addresses_differ)
  then show ?thesis using Some s by (simp add: select_intensity_def)
qed

lemma report_outcomes_frame:
  assumes d: "distinct (map snd registry)" and n: "label \<noteq> other"
  shows "report_outcomes update registry store1 label cs = Inr store2 \<Longrightarrow>
         select_intensity next_intensity registry store2 other =
         select_intensity next_intensity registry store1 other"
proof (induction cs arbitrary: store1)
  case Nil
  then show ?case by simp
next
  case (Cons c cs)
  from Cons.prems obtain st where
    st: "report_outcome update registry store1 label c = Inr st"
        "report_outcomes update registry st label cs = Inr store2"
    by (auto split: sum.splits)
  from Cons.IH [OF st(2)] report_outcome_frame [OF d n st(1)]
  show ?case by simp
qed

lemma report_outcomes_registered:
  "map_of registry label = Some a \<Longrightarrow>
     \<exists>store2. report_outcomes update registry store1 label cs = Inr store2"
  by (induction cs arbitrary: store1) (simp_all add: report_outcome_def)

text \<open>
  C6. In a manager set up with one staircase per condition label, the responses fed to
  the staircase of one label are all accepted and leave what \<open>select_intensity\<close> returns
  for every other label as it was: the instances share no state.
\<close>

theorem manager_staircases_independent:
  assumes "manager_init cfgs store0 = (registry, store)"
    and "label \<in> fst ` set cfgs"
    and "label \<noteq> other"
  shows "\<exists>store2. report_outcomes update registry store1 label cs = Inr store2 \<and>
           select_intensity next_intensity registry store2 other =
           select_intensity next_intensity registry store1 other"
proof -
  have d: "distinct (map snd registry)"
    using assms(1) by (rule manager_init_distinct_addresses)
  have "map fst registry = map fst cfgs"
    using manager_init_addresses [OF assms(1)] by simp
  then have "label \<in> fst ` set registry"
    using assms(2) by (metis set_map)
  then obtain a where "map_of registry label = Some a"
    by (metis domD dom_map_of_conv_image_fst)
  from report_outcomes_registered [OF this] obtain store2 where
    r: "report_outcomes update registry store1 label cs = Inr store2" by blast
  from report_outcomes_frame [OF d assms(3) r] r show ?thesis by blast
qed

theorem manager_staircases_independent_witness:
  "manager_init
     [(''Less'', projr (updown_init (updown_params 5))),
      (''More'', projr (updown_init (updown_params 40)))] [] =
     ([(''Less'', 0), (''More'', 1)],
      [projr (updown_init (updown_params 5)), projr (updown_init (updown_params 40))]) \<and>
   ''Less'' \<in> fst ` set
     [(''Less'', projr (updown_init (updown_params 5))),
      (''More'', projr (updown_init (updown_params 40)))] \<and>
   ''Less'' \<noteq> ''More'' \<and>
   select_intensity updown_next_intensity [(''Less'', 0), (''More'', 1)]
     [projr (updown_init (updown_params 5)), projr (updown_init (updown_params 40))]
     ''Less'' = Inr 5 \<and>
   select_intensity updown_next_intensity [(''Less'', 0), (''More'', 1)]
     [projr (updown_init (updown_params 5)), projr (updown_init (updown_params 40))]
     ''More'' = Inr 40 \<and>
   (\<exists>store2.
      report_outcomes updown_update [(''Less'', 0), (''More'', 1)]
        [projr (updown_init (updown_params 5)), projr (updown_init (updown_params 40))]
        ''Less'' [False] = Inr store2 \<and>
      select_intensity updown_next_intensity [(''Less'', 0), (''More'', 1)] store2 ''Less'' =
        Inr 25 \<and>
      select_intensity updown_next_intensity [(''Less'', 0), (''More'', 1)] store2 ''More'' =
        Inr 40)"
proof -
  let ?less = "projr (updown_init (updown_params 5))"
  let ?more = "projr (updown_init (updown_params 40))"
  let ?reg = "[(''Less'', 0::nat), (''More'', 1)]"
  have i: "manager_init [(''Less'', ?less), (''More'', ?more)] [] = (?reg, [?less, ?more])"
    by simp
  have m: "''Less'' \<in> fst ` set [(''Less'', ?less), (''More'', ?more)]"
    by simp
  have n: "''Less'' \<noteq> ''More''"
    by simp
  have l0: "select_intensity updown_next_intensity ?reg [?less, ?more] ''Less'' = Inr 5"
    by (simp add: select_intensity_def updown_eval)
  have m0: "select_intensity updown_next_intensity ?reg [?less, ?more] ''More'' = Inr 40"
    by (simp add: select_intensity_def updown_eval)
  from manager_staircases_independent [OF i m n, of updown_update "[?less, ?more]" "[False]"
      updown_next_intensity]
  obtain store2 where
    r: "report_outcomes updown_update ?reg [?less, ?more] ''Less'' [False] = Inr store2" and
    f: "select_intensity updown_next_intensity ?reg store2 ''More'' =
        select_intensity updown_next_intensity ?reg [?less, ?more] ''More''"
    by blast
  from r have s: "store2 = [updown_update ?less False, ?more]"
    by (simp add: report_outcome_def)
  have l1: "select_intensity updown_next_intensity ?reg store2 ''Less'' = Inr 25"
    unfolding s by (simp add: select_intensity_def updown_eval)
  from i m n l0 m0 r l1 f show ?thesis
    by (simp only: m0) blast
qed

end
